theory Spec2Isabelle
  imports Main "HOL-Library.Sublist" "HOL-Library.AList"
begin

section \<open>Strings and paths\<close>

text \<open>
  The file organizer (\<^verbatim>\<open>src/projects/python-tools/file_organizer.py\<close>) works on
  Python strings and \<^verbatim>\<open>pathlib.Path\<close> values. Strings are modelled as \<^typ>\<open>string\<close>
  (byte characters); a resolved absolute path is the list of its components, the root
  being the empty list.
\<close>

type_synonym path = "string list"

text \<open>\<^verbatim>\<open>str.lower()\<close>: the letters \<^verbatim>\<open>A\<close> to \<^verbatim>\<open>Z\<close> are mapped to \<^verbatim>\<open>a\<close> to \<^verbatim>\<open>z\<close>, every other
  character is kept.\<close>

definition lower_char :: "char \<Rightarrow> char" where
  "lower_char c =
     (if (65::nat) \<le> of_char c \<and> of_char c \<le> (90::nat)
      then char_of (of_char c + (32::nat)) else c)"

definition lower :: "string \<Rightarrow> string" where
  "lower s = map lower_char s"

text \<open>\<^verbatim>\<open>pattern in file_name\<close> on strings: \<open>pat\<close> occurs in \<open>s\<close> as a contiguous run.\<close>

fun str_contains :: "string \<Rightarrow> string \<Rightarrow> bool" where
  "str_contains pat [] = (pat = [])"
| "str_contains pat (c # cs) = (prefix pat (c # cs) \<or> str_contains pat cs)"

text \<open>
  \<^verbatim>\<open>Path.name\<close>, \<^verbatim>\<open>Path.parent\<close>, \<^verbatim>\<open>Path.suffix\<close> and \<^verbatim>\<open>Path.stem\<close>.
  The suffix starts at the last dot of the name, unless that dot is the first or the
  last character (\<^verbatim>\<open>i = name.rfind('.'); 0 < i < len(name) - 1\<close>).
\<close>

definition name :: "path \<Rightarrow> string" where
  "name p = (if p = [] then [] else last p)"

definition parent :: "path \<Rightarrow> path" where
  "parent p = butlast p"

definition rfind_dot :: "string \<Rightarrow> nat option" where
  "rfind_dot s =
     (if CHR ''.'' \<in> set s
      then Some (length s - 1 - length (takeWhile (\<lambda>c. c \<noteq> CHR ''.'') (rev s)))
      else None)"

definition has_suffix :: "string \<Rightarrow> bool" where
  "has_suffix s =
     (case rfind_dot s of None \<Rightarrow> False | Some i \<Rightarrow> 0 < i \<and> i < length s - 1)"

definition suffix_of :: "string \<Rightarrow> string" where
  "suffix_of s = (if has_suffix s then drop (the (rfind_dot s)) s else [])"

definition stem_of :: "string \<Rightarrow> string" where
  "stem_of s = (if has_suffix s then take (the (rfind_dot s)) s else s)"

definition path_suffix :: "path \<Rightarrow> string" where
  "path_suffix p = suffix_of (name p)"

definition stem :: "path \<Rightarrow> string" where
  "stem p = stem_of (name p)"

text \<open>\<^verbatim>\<open>str(path)\<close> of an absolute POSIX path.\<close>

definition str_path :: "path \<Rightarrow> string" where
  "str_path p = (if p = [] then ''/'' else concat (map (\<lambda>c. CHR ''/'' # c) p))"

section \<open>Configuration\<close>

text \<open>
  \<^verbatim>\<open>self.config\<close> is a dictionary read from JSON. A dictionary that is iterated is an
  association list in insertion order; the optional key \<^verbatim>\<open>"subfolders"\<close> is an option.
\<close>

record rule =
  extensions :: "string list"
  folder :: string
  subfolders :: "(string \<times> string list) list option"

record config =
  rules :: "(string \<times> rule) list"
  ignore_folders :: "string list"
  dry_run :: bool
  create_date_folders :: bool
  backup_enabled :: bool

definition default_rules :: "(string \<times> rule) list" where
  "default_rules =
    [(''images'',
        \<lparr>extensions = [''.jpg'', ''.jpeg'', ''.png'', ''.gif'', ''.bmp'', ''.tiff'', ''.svg''],
         folder = ''Images'',
         subfolders = Some
           [(''screenshots'', [''screenshot'', ''screen_shot'', ''capture'']),
            (''photos'', [''photo'', ''img'', ''picture'']),
            (''icons'', [''icon'', ''ico''])]\<rparr>),
     (''documents'',
        \<lparr>extensions = [''.pdf'', ''.doc'', ''.docx'', ''.txt'', ''.rtf'', ''.odt''],
         folder = ''Documents'',
         subfolders = Some
           [(''pdfs'', [''.pdf'']),
            (''word_docs'', [''.doc'', ''.docx'']),
            (''text_files'', [''.txt'', ''.rtf''])]\<rparr>),
     (''videos'',
        \<lparr>extensions = [''.mp4'', ''.avi'', ''.mov'', ''.wmv'', ''.flv'', ''.mkv''],
         folder = ''Videos'',
         subfolders = Some
           [(''movies'', [''movie'', ''film'']),
            (''tutorials'', [''tutorial'', ''guide'', ''how_to''])]\<rparr>),
     (''audio'',
        \<lparr>extensions = [''.mp3'', ''.wav'', ''.flac'', ''.aac'', ''.ogg''],
         folder = ''Audio'',
         subfolders = Some
           [(''music'', [''music'', ''song'']),
            (''podcasts'', [''podcast'', ''episode'']),
            (''sounds'', [''sound'', ''sfx'', ''effect''])]\<rparr>),
     (''archives'',
        \<lparr>extensions = [''.zip'', ''.rar'', ''.7z'', ''.tar'', ''.gz'', ''.bz2''],
         folder = ''Archives'',
         subfolders = None\<rparr>),
     (''code'',
        \<lparr>extensions = [''.py'', ''.js'', ''.html'', ''.css'', ''.cpp'', ''.java'', ''.c''],
         folder = ''Code'',
         subfolders = Some
           [(''python'', [''.py'']),
            (''web'', [''.html'', ''.css'', ''.js'']),
            (''cpp'', [''.cpp'', ''.c'', ''.h''])]\<rparr>)]"

definition default_config :: config where
  "default_config =
    \<lparr>rules = default_rules,
     ignore_folders = [''organized'', ''system'', ''program files'', ''windows''],
     dry_run = False,
     create_date_folders = True,
     backup_enabled = True\<rparr>"

section \<open>Classification\<close>

text \<open>
  \<^verbatim>\<open>get_file_category\<close>: three nested loops, each left by the first \<^verbatim>\<open>return\<close>.
  \<open>match_patterns\<close> is the loop over the patterns of one subfolder, \<open>scan_subfolders\<close>
  the loop over the subfolders of one category, \<open>scan_rules\<close> the loop over the
  categories.
\<close>

fun match_patterns :: "string list \<Rightarrow> string \<Rightarrow> string \<Rightarrow> bool" where
  "match_patterns [] file_name file_ext = False"
| "match_patterns (pattern # patterns) file_name file_ext =
     (if str_contains pattern file_name \<or> pattern = file_ext then True
      else match_patterns patterns file_name file_ext)"

fun scan_subfolders :: "(string \<times> string list) list \<Rightarrow> string \<Rightarrow> string \<Rightarrow> string option" where
  "scan_subfolders [] file_name file_ext = None"
| "scan_subfolders ((subfolder, patterns) # rest) file_name file_ext =
     (if match_patterns patterns file_name file_ext then Some subfolder
      else scan_subfolders rest file_name file_ext)"

fun scan_rules :: "(string \<times> rule) list \<Rightarrow> string \<Rightarrow> string \<Rightarrow> string \<times> string" where
  "scan_rules [] file_name file_ext = (''misc'', '''')"
| "scan_rules ((category, r) # rest) file_name file_ext =
     (if file_ext \<in> set (extensions r) then
        (case subfolders r of
           None \<Rightarrow> (category, '''')
         | Some sfs \<Rightarrow>
             (case scan_subfolders sfs file_name file_ext of
                Some subfolder \<Rightarrow> (category, subfolder)
              | None \<Rightarrow> (category, '''')))
      else scan_rules rest file_name file_ext)"

definition get_file_category :: "config \<Rightarrow> path \<Rightarrow> string \<times> string" where
  "get_file_category cfg file_path =
     scan_rules (rules cfg) (lower (stem file_path)) (lower (path_suffix file_path))"

text \<open>
  The classification as the specification words it: the first category whose extension
  list contains the extension, with the first subfolder one of whose patterns is a
  substring of the stem or equals the extension.
\<close>

definition pattern_matches :: "string \<Rightarrow> string \<Rightarrow> string \<Rightarrow> bool" where
  "pattern_matches file_name file_ext pattern = (sublist pattern file_name \<or> pattern = file_ext)"

definition first_subfolder :: "rule \<Rightarrow> string \<Rightarrow> string \<Rightarrow> string" where
  "first_subfolder r file_name file_ext =
     (case find (\<lambda>sf. list_ex (pattern_matches file_name file_ext) (snd sf))
             (case subfolders r of None \<Rightarrow> [] | Some sfs \<Rightarrow> sfs) of
        None \<Rightarrow> ''''
      | Some sf \<Rightarrow> fst sf)"

definition spec_file_category :: "config \<Rightarrow> path \<Rightarrow> string \<times> string" where
  "spec_file_category cfg file_path =
     (case find (\<lambda>cr. lower (path_suffix file_path) \<in> set (extensions (snd cr))) (rules cfg) of
        None \<Rightarrow> (''misc'', '''')
      | Some cr \<Rightarrow>
          (fst cr, first_subfolder (snd cr) (lower (stem file_path)) (lower (path_suffix file_path))))"

section \<open>Decimal numerals and dates\<close>

text \<open>
  \<^verbatim>\<open>f"{counter}"\<close>: the decimal numeral of a natural number.
\<close>

definition digit_char :: "nat \<Rightarrow> char" where
  "digit_char d = char_of (48 + d)"

function str_nat :: "nat \<Rightarrow> string" where
  "str_nat n = (if n < 10 then [digit_char n] else str_nat (n div 10) @ [digit_char (n mod 10)])"
  by pat_completeness auto
termination
  by (relation "measure (\<lambda>n. n)") auto

declare str_nat.simps [simp del]

text \<open>
  \<^verbatim>\<open>datetime.fromtimestamp(t).strftime("%Y-%m")\<close>. The conversion of a timestamp to
  local calendar time belongs to the platform: it is the parameter \<open>fromtimestamp\<close> of
  the environment below, giving the year and the month. \<^verbatim>\<open>%m\<close> is the month padded to
  two digits.
\<close>

definition strftime_Ym :: "nat \<times> nat \<Rightarrow> string" where
  "strftime_Ym ym =
     str_nat (fst ym) @ ''-'' @
     (if snd ym < 10 then ''0'' @ str_nat (snd ym) else str_nat (snd ym))"

section \<open>The file system\<close>

text \<open>
  A file system is a finite table from resolved paths to entries; the order of the table
  is the order in which a directory listing returns them. A file carries its
  modification time and its contents, a directory its modification time. Permissions,
  links, several devices and the change of a directory's own time stamp when an entry is
  added are outside the model; names are compared exactly.
\<close>

datatype node = File nat string | Dir nat

type_synonym filesystem = "(path \<times> node) list"

fun st_mtime :: "node \<Rightarrow> nat" where
  "st_mtime (File t c) = t"
| "st_mtime (Dir t) = t"

definition path_exists :: "filesystem \<Rightarrow> path \<Rightarrow> bool" where
  "path_exists fs p = (map_of fs p \<noteq> None)"

definition is_dir :: "filesystem \<Rightarrow> path \<Rightarrow> bool" where
  "is_dir fs p = (case map_of fs p of Some (Dir t) \<Rightarrow> True | _ \<Rightarrow> False)"

definition is_file :: "filesystem \<Rightarrow> path \<Rightarrow> bool" where
  "is_file fs p = (case map_of fs p of Some (File t c) \<Rightarrow> True | _ \<Rightarrow> False)"

text \<open>\<^verbatim>\<open>path / s\<close> for a string \<open>s\<close> without a separator; joining the empty string
  changes nothing.\<close>

definition join :: "path \<Rightarrow> string \<Rightarrow> path" where
  "join p s = (if s = [] then p else p @ [s])"

text \<open>The entries of a directory, in listing order.\<close>

definition children :: "filesystem \<Rightarrow> path \<Rightarrow> path list" where
  "children fs p = [q \<leftarrow> map fst fs. q \<noteq> [] \<and> butlast q = p]"

text \<open>The exceptions the organizer can meet.\<close>

datatype exn =
    KeyError string
  | is_FileNotFoundError: FileNotFoundError path
  | FileExistsError path
  | NotADirectoryError path
  | IsADirectoryError path
  | SameFileError path
  | ShutilError path
  | ValueError path path
  | UnicodeEncodeError string

text \<open>
  \<^verbatim>\<open>os.mkdir\<close>, and \<^verbatim>\<open>Path.mkdir(parents, exist_ok)\<close> as pathlib writes it: try
  \<^verbatim>\<open>os.mkdir\<close>; on \<^verbatim>\<open>FileNotFoundError\<close> create the parent first when \<^verbatim>\<open>parents\<close> is
  set, then retry without \<^verbatim>\<open>parents\<close>; any other \<^verbatim>\<open>OSError\<close> is swallowed only when
  \<^verbatim>\<open>exist_ok\<close> is set and the path is a directory.
\<close>

definition os_mkdir :: "nat \<Rightarrow> filesystem \<Rightarrow> path \<Rightarrow> exn + filesystem" where
  "os_mkdir t fs p =
     (if path_exists fs p then Inl (FileExistsError p)
      else (case map_of fs (parent p) of
              None \<Rightarrow> Inl (FileNotFoundError p)
            | Some (File t' c) \<Rightarrow> Inl (NotADirectoryError p)
            | Some (Dir t') \<Rightarrow> Inr (AList.update p (Dir t) fs)))"

lemma butlast_shorter: "butlast p \<noteq> p \<Longrightarrow> length p - Suc 0 < length p"
  by (cases p) auto

function Path_mkdir :: "nat \<Rightarrow> filesystem \<Rightarrow> path \<Rightarrow> bool \<Rightarrow> bool \<Rightarrow> exn + filesystem" where
  "Path_mkdir t fs p parents exist_ok =
     (case os_mkdir t fs p of
        Inr fs' \<Rightarrow> Inr fs'
      | Inl e \<Rightarrow>
          (if is_FileNotFoundError e then
             (if \<not> parents \<or> parent p = p then Inl e
              else (case Path_mkdir t fs (parent p) True True of
                      Inl e' \<Rightarrow> Inl e'
                    | Inr fs' \<Rightarrow> Path_mkdir t fs' p False exist_ok))
           else if \<not> exist_ok \<or> \<not> is_dir fs p then Inl e
           else Inr fs))"
  by pat_completeness auto
termination
  by (relation "measures [\<lambda>(t, fs, p, parents, exist_ok). length p,
                          \<lambda>(t, fs, p, parents, exist_ok). if parents then 1 else 0]")
     (auto simp: parent_def butlast_shorter)

declare Path_mkdir.simps [simp del]

text \<open>
  \<^verbatim>\<open>open(p, 'w')\<close> followed by a write: the file is created or replaced.
\<close>

definition write_file :: "nat \<Rightarrow> filesystem \<Rightarrow> path \<Rightarrow> string \<Rightarrow> exn + filesystem" where
  "write_file t fs p content =
     (if is_dir fs p then Inl (IsADirectoryError p)
      else (case map_of fs (parent p) of
              None \<Rightarrow> Inl (FileNotFoundError p)
            | Some (File t' c) \<Rightarrow> Inl (NotADirectoryError p)
            | Some (Dir t') \<Rightarrow> Inr (AList.update p (File t content) fs)))"

text \<open>
  \<^verbatim>\<open>shutil.copy2(src, dst)\<close>: a destination that is a directory receives the file under
  its own name; contents and modification time are copied.
\<close>

definition shutil_copy2 :: "filesystem \<Rightarrow> path \<Rightarrow> path \<Rightarrow> exn + filesystem" where
  "shutil_copy2 fs src dst =
     (let dst' = (if is_dir fs dst then join dst (name src) else dst) in
      if path_exists fs src \<and> src = dst' then Inl (SameFileError src)
      else (case map_of fs src of
              None \<Rightarrow> Inl (FileNotFoundError src)
            | Some (Dir t) \<Rightarrow> Inl (IsADirectoryError src)
            | Some (File t c) \<Rightarrow>
                (if is_dir fs dst' then Inl (IsADirectoryError dst')
                 else (case map_of fs (parent dst') of
                         None \<Rightarrow> Inl (FileNotFoundError dst')
                       | Some (File t' c') \<Rightarrow> Inl (NotADirectoryError dst')
                       | Some (Dir t') \<Rightarrow> Inr (AList.update dst' (File t c) fs)))))"

text \<open>
  \<^verbatim>\<open>shutil.move(src, dst)\<close> within one file system: \<^verbatim>\<open>os.rename\<close> to the destination
  (inside it, when it is a directory). A file replaces a file of the same name; a
  directory moves with everything below it.
\<close>

definition reroot :: "path \<Rightarrow> path \<Rightarrow> path \<Rightarrow> path" where
  "reroot src dst p = (if prefix src p then dst @ drop (length src) p else p)"

definition shutil_move :: "filesystem \<Rightarrow> path \<Rightarrow> path \<Rightarrow> exn + filesystem" where
  "shutil_move fs src dst =
     (let real_dst = (if is_dir fs dst \<and> src \<noteq> dst then join dst (name src) else dst) in
      if is_dir fs dst \<and> src \<noteq> dst \<and> path_exists fs real_dst then Inl (ShutilError real_dst)
      else (case map_of fs src of
              None \<Rightarrow> Inl (FileNotFoundError src)
            | Some (File t c) \<Rightarrow>
                (if is_dir fs real_dst then Inl (IsADirectoryError real_dst)
                 else (case map_of fs (parent real_dst) of
                         None \<Rightarrow> Inl (FileNotFoundError real_dst)
                       | Some (File t' c') \<Rightarrow> Inl (NotADirectoryError real_dst)
                       | Some (Dir t') \<Rightarrow>
                           Inr (AList.update real_dst (File t c) (AList.delete src fs))))
            | Some (Dir t) \<Rightarrow>
                (if prefix src real_dst then Inl (ShutilError real_dst)
                 else if path_exists fs real_dst then Inl (FileExistsError real_dst)
                 else (case map_of fs (parent real_dst) of
                         None \<Rightarrow> Inl (FileNotFoundError real_dst)
                       | Some (File t' c') \<Rightarrow> Inl (NotADirectoryError real_dst)
                       | Some (Dir t') \<Rightarrow>
                           Inr (map (\<lambda>e. (reroot src real_dst (fst e), snd e)) fs)))))"

text \<open>\<^verbatim>\<open>dest_path.relative_to(other)\<close> raises \<^verbatim>\<open>ValueError\<close> unless \<open>other\<close> is an
  ancestor of the path.\<close>

definition relative_to :: "path \<Rightarrow> path \<Rightarrow> exn + path" where
  "relative_to p other =
     (if prefix other p then Inr (drop (length other) p) else Inl (ValueError p other))"


section \<open>Name collisions\<close>

text \<open>
  The loop of \<^verbatim>\<open>organize_file\<close> that renames on a collision:
  \<^verbatim>\<open>while dest_path.exists(): dest_path = dest_folder / f"{stem}_{counter}{suffix}"; counter += 1\<close>.
  It is defined by general recursion; it terminates because the numbered names are
  pairwise different and the table of entries is finite. \<open>int_of_str\<close> reads a decimal
  numeral back and serves only to show that \<open>str_nat\<close> is injective.
\<close>

definition int_of_str :: "string \<Rightarrow> nat" where
  "int_of_str s = foldl (\<lambda>a c. 10 * a + (of_char c - 48)) 0 s"

lemma int_of_str_snoc: "int_of_str (s @ [c]) = 10 * int_of_str s + (of_char c - 48)"
  by (simp add: int_of_str_def)

lemma of_char_digit_char: "d < 10 \<Longrightarrow> of_char (digit_char d) = (48 + d :: nat)"
  by (simp add: digit_char_def)

lemma int_of_str_str_nat: "int_of_str (str_nat n) = n"
proof (induction n rule: str_nat.induct)
  case (1 n)
  show ?case
  proof (cases "n < 10")
    case True
    then show ?thesis
      by (subst str_nat.simps) (simp add: int_of_str_def of_char_digit_char)
  next
    case False
    then have "int_of_str (str_nat (n div 10)) = n div 10" using "1.IH" by simp
    with False show ?thesis
      by (subst str_nat.simps) (simp add: int_of_str_snoc of_char_digit_char)
  qed
qed

lemma str_nat_inj: "str_nat m = str_nat n \<Longrightarrow> m = n"
  by (metis int_of_str_str_nat)

text \<open>\<open>numbered dest_folder file_path counter\<close> is
  \<^verbatim>\<open>dest_folder / f"{stem}_{counter}{suffix}"\<close>.\<close>

definition numbered :: "path \<Rightarrow> path \<Rightarrow> nat \<Rightarrow> path" where
  "numbered dest_folder file_path counter =
     join dest_folder (stem file_path @ ''_'' @ str_nat counter @ path_suffix file_path)"

lemma numbered_inj: "numbered d f m = numbered d f n \<Longrightarrow> m = n"
  by (auto simp: numbered_def join_def dest: str_nat_inj split: if_splits)

lemma finite_numbered_existing: "finite {k. path_exists fs (numbered d f k)}"
proof -
  have "{k. path_exists fs (numbered d f k)} \<subseteq> numbered d f -` (fst ` set fs)"
    by (force simp: path_exists_def dest!: map_of_SomeD)
  moreover have "finite (numbered d f -` (fst ` set fs))"
    by (rule finite_vimageI) (auto simp: inj_on_def dest: numbered_inj)
  ultimately show ?thesis by (rule finite_subset)
qed

definition pending :: "filesystem \<Rightarrow> path \<Rightarrow> path \<Rightarrow> nat \<Rightarrow> nat" where
  "pending fs d f c = card {k. c \<le> k \<and> path_exists fs (numbered d f k)}"

lemma pending_step:
  "pending fs d f (Suc c) + (if path_exists fs (numbered d f c) then 1 else 0) = pending fs d f c"
proof -
  let ?A = "{k. c \<le> k \<and> path_exists fs (numbered d f k)}"
  let ?B = "{k. Suc c \<le> k \<and> path_exists fs (numbered d f k)}"
  have fin: "finite ?A" using finite_numbered_existing[of fs d f] by simp
  show ?thesis
  proof (cases "path_exists fs (numbered d f c)")
    case True
    then have "?A = insert c ?B" by (auto simp: Suc_le_eq le_less)
    moreover have "c \<notin> ?B" by simp
    moreover have "finite ?B" using finite_numbered_existing[of fs d f] by simp
    ultimately have "card ?A = Suc (card ?B)" by simp
    with True show ?thesis by (simp add: pending_def)
  next
    case False
    then have "?A = ?B" by (auto simp: Suc_le_eq le_less)
    with False show ?thesis by (simp add: pending_def)
  qed
qed

function conflict_loop :: "filesystem \<Rightarrow> path \<Rightarrow> path \<Rightarrow> nat \<Rightarrow> path \<Rightarrow> path \<times> nat" where
  "conflict_loop fs dest_folder file_path counter dest_path =
     (if path_exists fs dest_path
      then conflict_loop fs dest_folder file_path (counter + 1)
             (numbered dest_folder file_path counter)
      else (dest_path, counter))"
  by pat_completeness auto
termination
proof (relation "measure (\<lambda>(fs, d, f, c, p).
          (if path_exists fs p then 1 else 0) + 2 * pending fs d f c)", goal_cases)
  case 1
  show ?case by simp
next
  case (2 fs d f c p)
  then show ?case using pending_step[of fs d f c] by (auto split: if_splits)
qed

declare conflict_loop.simps [simp del]

section \<open>The organizer\<close>

text \<open>
  The counters of \<^verbatim>\<open>self.stats\<close>, the lines the tool prints, and the state a run
  threads through: the attributes of the \<^verbatim>\<open>FileOrganizer\<close> object, the file system and
  the console output.
\<close>

record stats =
  files_processed :: nat
  files_moved :: nat
  directories_created :: nat
  errors :: nat

definition zero_stats :: stats where
  "zero_stats = \<lparr>files_processed = 0, files_moved = 0, directories_created = 0, errors = 0\<rparr>"

datatype message =
    Loaded path
  | InvalidConfig
  | CreatedDefault path
  | SourceMissing path
  | Starting path
  | Mode bool
  | Action string string path
  | ErrorProcessing string exn
  | Summary stats bool

record state =
  config_file :: path
  config :: config
  stats :: stats
  fsys :: filesystem
  out :: "message list"

text \<open>
  What the platform supplies: the JSON reader (\<open>None\<close> when \<^verbatim>\<open>json.load\<close> raises
  \<^verbatim>\<open>JSONDecodeError\<close>; a text that parses is taken to have the shape of a
  configuration), the JSON writer, the conversion of a timestamp to the local year and
  month, the time stamped on what is created, and which strings the encoding of the
  standard output can encode (a file name read from a directory need not be one: a name
  with bytes that are not valid in the file-system encoding cannot be printed on a strict
  UTF-8 output).
\<close>

record env =
  json_load :: "string \<Rightarrow> config option"
  json_dump :: "config \<Rightarrow> string"
  fromtimestamp :: "nat \<Rightarrow> nat \<times> nat"
  now :: nat
  stdout_encodes :: "string \<Rightarrow> bool"

text \<open>
  \<^verbatim>\<open>print\<close>. \<open>emit\<close> is a print that succeeds: the line is added to the output. The
  lines whose text is fixed by the invocation (the constant texts, the configuration path
  and the source path of the command line, the counters) are taken to be printable and
  are emitted. The two lines that show the name of a candidate file, the action line of
  \<^verbatim>\<open>organize_file\<close> and the error line of the handler in \<^verbatim>\<open>organize_directory\<close>, raise
  \<^verbatim>\<open>UnicodeEncodeError\<close> when the output cannot encode what they interpolate; the text of
  an exception quotes names with \<^verbatim>\<open>repr\<close> and is printable.
\<close>

definition emit :: "message \<Rightarrow> state \<Rightarrow> state" where
  "emit m st = st\<lparr>out := out st @ [m]\<rparr>"

definition str_rel :: "path \<Rightarrow> string" where
  "str_rel p = (if p = [] then ''.'' else tl (concat (map (\<lambda>c. CHR ''/'' # c) p)))"

fun unprintable :: "env \<Rightarrow> message \<Rightarrow> string option" where
  "unprintable env (Action action file_name rel) =
     (if \<not> stdout_encodes env file_name then Some file_name
      else if \<not> stdout_encodes env (str_rel rel) then Some (str_rel rel)
      else None)"
| "unprintable env (ErrorProcessing file_name e) =
     (if \<not> stdout_encodes env file_name then Some file_name else None)"
| "unprintable env m = None"

definition print :: "env \<Rightarrow> message \<Rightarrow> state \<Rightarrow> state \<times> exn option" where
  "print env m st =
     (case unprintable env m of
        Some s \<Rightarrow> (st, Some (UnicodeEncodeError s))
      | None \<Rightarrow> (emit m st, None))"

subsection \<open>Loading the configuration\<close>

text \<open>
  \<^verbatim>\<open>save_config\<close> and \<^verbatim>\<open>load_config\<close>. An exception that leaves a method is the second
  component of its result.
\<close>

definition save_config :: "env \<Rightarrow> state \<Rightarrow> state \<times> exn option" where
  "save_config env st =
     (case write_file (now env) (fsys st) (config_file st) (json_dump env (config st)) of
        Inl e \<Rightarrow> (st, Some e)
      | Inr fs' \<Rightarrow> (st\<lparr>fsys := fs'\<rparr>, None))"

definition load_config :: "env \<Rightarrow> state \<Rightarrow> state \<times> exn option" where
  "load_config env st =
     (if path_exists (fsys st) (config_file st) then
        (case map_of (fsys st) (config_file st) of
           Some (File t c) \<Rightarrow>
             (case json_load env c of
                Some cfg \<Rightarrow> (emit (Loaded (config_file st)) (st\<lparr>config := cfg\<rparr>), None)
              | None \<Rightarrow> (emit InvalidConfig (st\<lparr>config := default_config\<rparr>), None))
         | _ \<Rightarrow> (st, Some (IsADirectoryError (config_file st))))
      else
        (case save_config env (st\<lparr>config := default_config\<rparr>) of
           (st', Some e) \<Rightarrow> (st', Some e)
         | (st', None) \<Rightarrow> (emit (CreatedDefault (config_file st)) st', None)))"

text \<open>
  \<^verbatim>\<open>FileOrganizer.__init__\<close> on a file system: the configuration is loaded, then the
  counters are set to zero.
\<close>

definition init :: "env \<Rightarrow> path \<Rightarrow> filesystem \<Rightarrow> state \<times> exn option" where
  "init env cf fs0 =
     (case load_config env
             \<lparr>config_file = cf, config = default_config, stats = zero_stats, fsys = fs0, out = []\<rparr> of
        (st, Some e) \<Rightarrow> (st, Some e)
      | (st, None) \<Rightarrow> (st\<lparr>stats := zero_stats\<rparr>, None))"

subsection \<open>The folder structure\<close>

text \<open>
  \<^verbatim>\<open>create_organized_structure\<close>. \<open>create_subfolders\<close> is the loop over the subfolder
  names of one category, \<open>create_categories\<close> the loop over the categories. The folder
  map is only ever looked up, so it is a map.
\<close>

type_synonym folder_map = "string \<rightharpoonup> path"

definition count_directory :: "state \<Rightarrow> state" where
  "count_directory st =
     st\<lparr>stats := (stats st)\<lparr>directories_created := directories_created (stats st) + 1\<rparr>\<rparr>"

fun create_subfolders ::
  "env \<Rightarrow> string \<Rightarrow> path \<Rightarrow> string list \<Rightarrow> state \<Rightarrow> folder_map \<Rightarrow> state \<times> (exn + folder_map)" where
  "create_subfolders env category category_path [] st fm = (st, Inr fm)"
| "create_subfolders env category category_path (subfolder # rest) st fm =
     (if \<not> dry_run (config st) then
        (case Path_mkdir (now env) (fsys st) (join category_path subfolder) False True of
           Inl e \<Rightarrow> (st, Inl e)
         | Inr fs' \<Rightarrow>
             create_subfolders env category category_path rest
               (count_directory (st\<lparr>fsys := fs'\<rparr>))
               (fm(category @ ''_'' @ subfolder \<mapsto> join category_path subfolder)))
      else
        create_subfolders env category category_path rest st
          (fm(category @ ''_'' @ subfolder \<mapsto> join category_path subfolder)))"

definition create_category ::
  "env \<Rightarrow> path \<Rightarrow> string \<Rightarrow> rule \<Rightarrow> state \<Rightarrow> folder_map \<Rightarrow> state \<times> (exn + folder_map)" where
  "create_category env organized_path category r st fm =
     (case (if \<not> dry_run (config st) then
              (case Path_mkdir (now env) (fsys st) (join organized_path (folder r)) True True of
                 Inl e \<Rightarrow> (st, Some e)
               | Inr fs' \<Rightarrow> (count_directory (st\<lparr>fsys := fs'\<rparr>), None))
            else (st, None)) of
        (st', Some e) \<Rightarrow> (st', Inl e)
      | (st', None) \<Rightarrow>
          (case subfolders r of
             None \<Rightarrow> (st', Inr (fm(category \<mapsto> join organized_path (folder r))))
           | Some sfs \<Rightarrow>
               create_subfolders env category (join organized_path (folder r)) (map fst sfs) st'
                 (fm(category \<mapsto> join organized_path (folder r)))))"

fun create_categories ::
  "env \<Rightarrow> path \<Rightarrow> (string \<times> rule) list \<Rightarrow> state \<Rightarrow> folder_map \<Rightarrow> state \<times> (exn + folder_map)" where
  "create_categories env organized_path [] st fm = (st, Inr fm)"
| "create_categories env organized_path ((category, r) # rest) st fm =
     (case create_category env organized_path category r st fm of
        (st', Inl e) \<Rightarrow> (st', Inl e)
      | (st', Inr fm') \<Rightarrow> create_categories env organized_path rest st' fm')"

definition create_organized_structure ::
  "env \<Rightarrow> state \<Rightarrow> path \<Rightarrow> state \<times> (exn + folder_map)" where
  "create_organized_structure env st base_path =
     (case create_categories env (join base_path ''organized'') (rules (config st)) st Map.empty of
        (st', Inl e) \<Rightarrow> (st', Inl e)
      | (st', Inr fm) \<Rightarrow>
          (if \<not> dry_run (config st') then
             (case Path_mkdir (now env) (fsys st')
                     (join (join base_path ''organized'') ''Miscellaneous'') True True of
                Inl e \<Rightarrow> (st', Inl e)
              | Inr fs' \<Rightarrow>
                  (st'\<lparr>fsys := fs'\<rparr>,
                   Inr (fm(''misc'' \<mapsto> join (join base_path ''organized'') ''Miscellaneous''))))
           else
             (st', Inr (fm(''misc'' \<mapsto> join (join base_path ''organized'') ''Miscellaneous'')))))"

subsection \<open>The folder map as a function of the configuration\<close>

text \<open>
  The folder map \<^verbatim>\<open>create_organized_structure\<close> returns does not depend on the file
  system: \<open>plan_subfolders\<close> and \<open>plan_categories\<close> make the same assignments without
  creating anything. They serve to state what the map holds.
\<close>

fun plan_subfolders :: "string \<Rightarrow> path \<Rightarrow> string list \<Rightarrow> folder_map \<Rightarrow> folder_map" where
  "plan_subfolders category category_path [] fm = fm"
| "plan_subfolders category category_path (subfolder # rest) fm =
     plan_subfolders category category_path rest
       (fm(category @ ''_'' @ subfolder \<mapsto> join category_path subfolder))"

fun plan_categories :: "path \<Rightarrow> (string \<times> rule) list \<Rightarrow> folder_map \<Rightarrow> folder_map" where
  "plan_categories organized_path [] fm = fm"
| "plan_categories organized_path ((category, r) # rest) fm =
     plan_categories organized_path rest
       (case subfolders r of
          None \<Rightarrow> fm(category \<mapsto> join organized_path (folder r))
        | Some sfs \<Rightarrow>
            plan_subfolders category (join organized_path (folder r)) (map fst sfs)
              (fm(category \<mapsto> join organized_path (folder r))))"


subsection \<open>Organizing one file\<close>

text \<open>
  \<^verbatim>\<open>organize_file\<close>, in the order of the source: the destination folder looked up in the
  folder map (\<^verbatim>\<open>folder_map[category]\<close> is evaluated in both branches, so a missing
  category is a \<^verbatim>\<open>KeyError\<close>), the date folder, the collision loop, the printed line
  (whose \<^verbatim>\<open>relative_to\<close> can raise), and the copy or move.
\<close>

definition lookup_dest_folder :: "folder_map \<Rightarrow> string \<Rightarrow> string \<Rightarrow> exn + path" where
  "lookup_dest_folder fm category subfolder =
     (case fm category of
        None \<Rightarrow> Inl (KeyError category)
      | Some category_path \<Rightarrow>
          (if subfolder \<noteq> [] then
             (case fm (category @ ''_'' @ subfolder) of
                Some p \<Rightarrow> Inr p
              | None \<Rightarrow> Inr category_path)
           else Inr category_path))"

definition add_date_folder :: "env \<Rightarrow> state \<Rightarrow> path \<Rightarrow> path \<Rightarrow> state \<times> (exn + path)" where
  "add_date_folder env st file_path dest_folder =
     (if create_date_folders (config st) then
        (case map_of (fsys st) file_path of
           None \<Rightarrow> (st, Inl (FileNotFoundError file_path))
         | Some nd \<Rightarrow>
             (if \<not> dry_run (config st) then
                (case Path_mkdir (now env) (fsys st)
                        (join dest_folder (strftime_Ym (fromtimestamp env (st_mtime nd))))
                        False True of
                   Inl e \<Rightarrow> (st, Inl e)
                 | Inr fs' \<Rightarrow>
                     (st\<lparr>fsys := fs'\<rparr>,
                      Inr (join dest_folder (strftime_Ym (fromtimestamp env (st_mtime nd))))))
              else (st, Inr (join dest_folder (strftime_Ym (fromtimestamp env (st_mtime nd)))))))
      else (st, Inr dest_folder))"

definition resolve_dest_path :: "filesystem \<Rightarrow> path \<Rightarrow> path \<Rightarrow> path" where
  "resolve_dest_path fs' dest_folder file_path =
     fst (conflict_loop fs' dest_folder file_path 1 (join dest_folder (name file_path)))"

definition count_moved :: "state \<Rightarrow> state" where
  "count_moved st = st\<lparr>stats := (stats st)\<lparr>files_moved := files_moved (stats st) + 1\<rparr>\<rparr>"

definition transfer :: "state \<Rightarrow> path \<Rightarrow> path \<Rightarrow> state \<times> exn option" where
  "transfer st file_path dest_path =
     (if \<not> dry_run (config st) then
        (case (if backup_enabled (config st) then shutil_copy2 (fsys st) file_path dest_path
               else shutil_move (fsys st) file_path dest_path) of
           Inl e \<Rightarrow> (st, Some e)
         | Inr fs' \<Rightarrow> (count_moved (st\<lparr>fsys := fs'\<rparr>), None))
      else (st, None))"

definition organize_file :: "env \<Rightarrow> state \<Rightarrow> path \<Rightarrow> folder_map \<Rightarrow> state \<times> exn option" where
  "organize_file env st file_path fm =
     (case lookup_dest_folder fm (fst (get_file_category (config st) file_path))
             (snd (get_file_category (config st) file_path)) of
        Inl e \<Rightarrow> (st, Some e)
      | Inr dest_folder0 \<Rightarrow>
          (case add_date_folder env st file_path dest_folder0 of
             (st1, Inl e) \<Rightarrow> (st1, Some e)
           | (st1, Inr dest_folder) \<Rightarrow>
               (case relative_to (resolve_dest_path (fsys st1) dest_folder file_path)
                       (parent (parent file_path)) of
                  Inl e \<Rightarrow> (st1, Some e)
                | Inr rel \<Rightarrow>
                    (case print env
                            (Action (if \<not> backup_enabled (config st1) then ''MOVE'' else ''COPY'')
                               (name file_path) rel) st1 of
                       (st2, Some e) \<Rightarrow> (st2, Some e)
                     | (st2, None) \<Rightarrow>
                         transfer st2 file_path
                           (resolve_dest_path (fsys st1) dest_folder file_path)))))"

subsection \<open>Gathering and processing the files\<close>

text \<open>
  \<^verbatim>\<open>should_ignore_folder\<close>, and the recursive gathering: \<^verbatim>\<open>os.walk\<close> top-down, the
  directory list pruned in place, the files of a directory before its subdirectories.
  It terminates because each step goes to an entry strictly below the current one.
\<close>

definition should_ignore_folder :: "config \<Rightarrow> string \<Rightarrow> bool" where
  "should_ignore_folder cfg folder_name =
     list_ex (\<lambda>ignore. str_contains ignore (lower folder_name)) (ignore_folders cfg)"

definition below :: "filesystem \<Rightarrow> path \<Rightarrow> nat" where
  "below fs' p = length [q \<leftarrow> map fst fs'. strict_prefix p q]"

lemma below_child:
  assumes "d \<in> set (children fs' p)"
  shows "below fs' d < below fs' p"
proof -
  from assms have d: "d \<in> set (map fst fs')" "d \<noteq> []" "butlast d = p"
    by (auto simp: children_def)
  then have "d = p @ [last d]" using append_butlast_last_id[of d] by simp
  then have pd: "strict_prefix p d"
    by (metis append_Nil2 list.distinct(1) prefixI same_append_eq strict_prefix_def)
  have "\<And>q. strict_prefix d q \<Longrightarrow> strict_prefix p q"
    using pd by (rule prefix_order.less_trans)
  then have sub: "[q \<leftarrow> map fst fs'. strict_prefix d q] =
             [q \<leftarrow> [q \<leftarrow> map fst fs'. strict_prefix p q]. strict_prefix d q]"
    by (auto intro!: filter_cong)
  have "d \<in> set [q \<leftarrow> map fst fs'. strict_prefix p q]" using d pd by simp
  then have "length [q \<leftarrow> [q \<leftarrow> map fst fs'. strict_prefix p q]. strict_prefix d q]
             < length [q \<leftarrow> map fst fs'. strict_prefix p q]"
    by (rule length_filter_less) simp
  then show ?thesis by (simp add: below_def sub)
qed

function walk_files :: "config \<Rightarrow> filesystem \<Rightarrow> path \<Rightarrow> path list" where
  "walk_files cfg fs' root =
     (if \<not> is_dir fs' root then []
      else
        [f \<leftarrow> [q \<leftarrow> children fs' root. \<not> is_dir fs' q].
           \<not> str_contains ''organized'' (str_path f)] @
        concat (map (walk_files cfg fs')
          [d \<leftarrow> [q \<leftarrow> children fs' root. is_dir fs' q].
             \<not> should_ignore_folder cfg (name d)]))"
  by pat_completeness auto
termination
  by (relation "measure (\<lambda>(cfg, fs', root). below fs' root)") (auto simp: below_child)

declare walk_files.simps [simp del]

definition files_to_process :: "config \<Rightarrow> filesystem \<Rightarrow> path \<Rightarrow> bool \<Rightarrow> exn + path list" where
  "files_to_process cfg fs' source recursive =
     (if recursive then Inr (walk_files cfg fs' source)
      else if \<not> path_exists fs' source then Inl (FileNotFoundError source)
      else if \<not> is_dir fs' source then Inl (NotADirectoryError source)
      else Inr [f \<leftarrow> children fs' source. is_file fs' f])"

text \<open>
  The processing loop of \<^verbatim>\<open>organize_directory\<close>: \<^verbatim>\<open>try: organize_file; files_processed += 1\<close>,
  \<^verbatim>\<open>except Exception: print; errors += 1\<close>. The handler prints before it counts, and an
  exception raised inside the handler is not caught: it leaves the loop and the method.
\<close>

definition count_processed :: "state \<Rightarrow> state" where
  "count_processed st =
     st\<lparr>stats := (stats st)\<lparr>files_processed := files_processed (stats st) + 1\<rparr>\<rparr>"

definition count_error :: "state \<Rightarrow> state" where
  "count_error st = st\<lparr>stats := (stats st)\<lparr>errors := errors (stats st) + 1\<rparr>\<rparr>"

definition process_file :: "env \<Rightarrow> folder_map \<Rightarrow> state \<Rightarrow> path \<Rightarrow> state \<times> exn option" where
  "process_file env fm st file_path =
     (case organize_file env st file_path fm of
        (st', None) \<Rightarrow> (count_processed st', None)
      | (st', Some e) \<Rightarrow>
          (case print env (ErrorProcessing (name file_path) e) st' of
             (st'', Some e') \<Rightarrow> (st'', Some e')
           | (st'', None) \<Rightarrow> (count_error st'', None)))"

fun process_files :: "env \<Rightarrow> folder_map \<Rightarrow> state \<Rightarrow> path list \<Rightarrow> state \<times> exn option" where
  "process_files env fm st [] = (st, None)"
| "process_files env fm st (file_path # rest) =
     (case process_file env fm st file_path of
        (st', Some e) \<Rightarrow> (st', Some e)
      | (st', None) \<Rightarrow> process_files env fm st' rest)"

definition print_summary :: "state \<Rightarrow> state" where
  "print_summary st = emit (Summary (stats st) (dry_run (config st))) st"

definition organize_directory :: "env \<Rightarrow> state \<Rightarrow> path \<Rightarrow> bool \<Rightarrow> state \<times> exn option" where
  "organize_directory env st source recursive =
     (if \<not> path_exists (fsys st) source then (emit (SourceMissing source) st, None)
      else
        (case create_organized_structure env
                (emit (Mode (dry_run (config st))) (emit (Starting source) st)) source of
           (st1, Inl e) \<Rightarrow> (st1, Some e)
         | (st1, Inr fm) \<Rightarrow>
             (case files_to_process (config st1) (fsys st1) source recursive of
                Inl e \<Rightarrow> (st1, Some e)
              | Inr files \<Rightarrow>
                  (case process_files env fm st1 files of
                     (st2, Some e) \<Rightarrow> (st2, Some e)
                   | (st2, None) \<Rightarrow> (print_summary st2, None)))))"

subsection \<open>The command line\<close>

text \<open>
  \<^verbatim>\<open>main\<close> for an invocation without \<^verbatim>\<open>--analyze\<close> (which only reads and prints): the
  organizer is constructed, the flags override the configuration, and the directory is
  organized.
\<close>

record args =
  directory :: path
  execute :: bool
  recursive_flag :: bool
  config_path :: path
  backup :: bool
  no_date_folders :: bool

definition apply_flags :: "args \<Rightarrow> config \<Rightarrow> config" where
  "apply_flags a cfg =
     cfg\<lparr>dry_run := (if \<not> execute a then True else dry_run cfg),
         backup_enabled := (if backup a then True else backup_enabled cfg),
         create_date_folders := (if no_date_folders a then False else create_date_folders cfg)\<rparr>"

definition main :: "env \<Rightarrow> args \<Rightarrow> filesystem \<Rightarrow> state \<times> exn option" where
  "main env a fs0 =
     (case init env (config_path a) fs0 of
        (st, Some e) \<Rightarrow> (st, Some e)
      | (st, None) \<Rightarrow>
          organize_directory env (st\<lparr>config := apply_flags a (config st)\<rparr>)
            (directory a) (recursive_flag a))"


section \<open>Example inputs\<close>

text \<open>Concrete environments, file systems and arguments on which the theorems below are
  instantiated.\<close>

definition example_env :: env where
  "example_env =
     \<lparr>json_load = (\<lambda>s. None), json_dump = (\<lambda>c. ''{}''),
      fromtimestamp = (\<lambda>t. (2024, 3)), now = 100,
      stdout_encodes = list_all (\<lambda>c. of_char c < (128::nat))\<rparr>"

definition example_fs :: filesystem where
  "example_fs =
     [([], Dir 0),
      ([''data''], Dir 0),
      ([''data'', ''screenshot_2024.png''], File 5 ''image'')]"

definition dry_args :: args where
  "dry_args =
     \<lparr>directory = [''data''], execute = False, recursive_flag = False,
      config_path = [''organizer_config.json''], backup = False, no_date_folders = False\<rparr>"

definition example_fs_configured :: filesystem where
  "example_fs_configured = example_fs @ [([''organizer_config.json''], File 1 ''not json'')]"

definition example_dry_state :: state where
  "example_dry_state =
     \<lparr>config_file = [''organizer_config.json''], config = default_config\<lparr>dry_run := True\<rparr>,
      stats = zero_stats, fsys = example_fs, out = []\<rparr>"

definition example_live_state :: state where
  "example_live_state =
     \<lparr>config_file = [''organizer_config.json''], config = default_config,
      stats = zero_stats, fsys = example_fs, out = []\<rparr>"

definition example_tree :: filesystem where
  "example_tree =
     [([], Dir 0),
      ([''data''], Dir 0),
      ([''data'', ''screenshot_2024.png''], File 5 ''image''),
      ([''data'', ''organized_notes.txt''], File 6 ''notes''),
      ([''data'', ''sub''], Dir 0),
      ([''data'', ''sub'', ''b.txt''], File 7 ''b''),
      ([''data'', ''sub'', ''deep''], Dir 0),
      ([''data'', ''sub'', ''deep'', ''c.txt''], File 8 ''c''),
      ([''data'', ''z''], Dir 0),
      ([''data'', ''z'', ''d.mp3''], File 9 ''d'')]"

definition example_collisions :: filesystem where
  "example_collisions =
     [([], Dir 0),
      ([''in''], Dir 0),
      ([''in'', ''x.txt''], File 1 ''new''),
      ([''out''], Dir 0),
      ([''out'', ''x.txt''], File 2 ''old''),
      ([''out'', ''x_1.txt''], File 3 ''older'')]"





definition example_built_fs :: filesystem where
  "example_built_fs =
     [([], Dir 0), ([''data''], Dir 0),
      ([''data'', ''screenshot_2024.png''], File 5 ''image''),
      ([''data'', ''organized''], Dir 100),
      ([''data'', ''organized'', ''Images''], Dir 100),
      ([''data'', ''organized'', ''Images'', ''screenshots''], Dir 100),
      ([''data'', ''organized'', ''Images'', ''photos''], Dir 100),
      ([''data'', ''organized'', ''Images'', ''icons''], Dir 100),
      ([''data'', ''organized'', ''Documents''], Dir 100),
      ([''data'', ''organized'', ''Documents'', ''pdfs''], Dir 100),
      ([''data'', ''organized'', ''Documents'', ''word_docs''], Dir 100),
      ([''data'', ''organized'', ''Documents'', ''text_files''], Dir 100),
      ([''data'', ''organized'', ''Videos''], Dir 100),
      ([''data'', ''organized'', ''Videos'', ''movies''], Dir 100),
      ([''data'', ''organized'', ''Videos'', ''tutorials''], Dir 100),
      ([''data'', ''organized'', ''Audio''], Dir 100),
      ([''data'', ''organized'', ''Audio'', ''music''], Dir 100),
      ([''data'', ''organized'', ''Audio'', ''podcasts''], Dir 100),
      ([''data'', ''organized'', ''Audio'', ''sounds''], Dir 100),
      ([''data'', ''organized'', ''Archives''], Dir 100),
      ([''data'', ''organized'', ''Code''], Dir 100),
      ([''data'', ''organized'', ''Code'', ''python''], Dir 100),
      ([''data'', ''organized'', ''Code'', ''web''], Dir 100),
      ([''data'', ''organized'', ''Code'', ''cpp''], Dir 100),
      ([''data'', ''organized'', ''Miscellaneous''], Dir 100)]"

definition example_built :: state where
  "example_built =
     \<lparr>config_file = [''organizer_config.json''], config = default_config,
      stats = \<lparr>files_processed = 0, files_moved = 0, directories_created = 20, errors = 0\<rparr>,
      fsys = example_built_fs, out = []\<rparr>"

definition example_built_fm :: folder_map where
  "example_built_fm = projr (snd (create_organized_structure example_env example_live_state [''data'']))"

definition bad_name :: string where
  "bad_name = ''bad'' @ [CHR 0xFF] @ ''.txt''"

definition example_badname_fs :: filesystem where
  "example_badname_fs =
     [([], Dir 0),
      ([''data''], Dir 0),
      ([''data'', ''a.txt''], File 1 ''a''),
      ([''data'', bad_name], File 2 ''b''),
      ([''data'', ''c.txt''], File 3 ''c'')]"

definition example_badname_state :: state where
  "example_badname_state =
     \<lparr>config_file = [''organizer_config.json''], config = default_config,
      stats = zero_stats, fsys = example_badname_fs, out = []\<rparr>"

section \<open>Properties of the classifier\<close>

lemma str_contains_sublist: "str_contains pat s = sublist pat s"
  by (induction s) (auto simp: sublist_Cons_right)

lemma match_patterns_list_ex:
  "match_patterns patterns file_name file_ext =
     list_ex (pattern_matches file_name file_ext) patterns"
  by (induction patterns) (auto simp: pattern_matches_def str_contains_sublist)

lemma scan_subfolders_find:
  "scan_subfolders sfs file_name file_ext =
     map_option fst (find (\<lambda>sf. list_ex (pattern_matches file_name file_ext) (snd sf)) sfs)"
  by (induction sfs) (auto simp: match_patterns_list_ex)

lemma scan_rules_find:
  "scan_rules rs file_name file_ext =
     (case find (\<lambda>cr. file_ext \<in> set (extensions (snd cr))) rs of
        None \<Rightarrow> (''misc'', '''')
      | Some cr \<Rightarrow> (fst cr, first_subfolder (snd cr) file_name file_ext))"
proof (induction rs)
  case Nil
  show ?case by simp
next
  case (Cons cr rs)
  obtain category r where cr: "cr = (category, r)" by (cases cr)
  show ?case
  proof (cases "file_ext \<in> set (extensions r)")
    case True
    then show ?thesis
      by (simp add: cr first_subfolder_def scan_subfolders_find split: option.splits)
  next
    case False
    then show ?thesis using Cons.IH by (simp add: cr)
  qed
qed

text \<open>
  Claim C1. For every file path, \<^verbatim>\<open>get_file_category\<close> returns the first category, in
  configuration order, whose extension list contains the lower-cased extension, paired
  with the first subfolder of that category one of whose patterns is a substring of the
  lower-cased stem or equals the extension; the subfolder is empty when none matches,
  and the result is \<^verbatim>\<open>("misc", "")\<close> when no category lists the extension.
\<close>

theorem get_file_category_first_match:
  "get_file_category cfg file_path = spec_file_category cfg file_path"
  by (simp add: get_file_category_def spec_file_category_def scan_rules_find)

theorem get_file_category_first_match_witness:
  "get_file_category default_config [''home'', ''Screenshot_2024.PNG''] = (''images'', ''screenshots'')"
  unfolding get_file_category_first_match by code_simp

section \<open>State bookkeeping\<close>

lemma emit_simps [simp]:
  "fsys (emit m st) = fsys st" "config (emit m st) = config st" "stats (emit m st) = stats st"
  "out (emit m st) = out st @ [m]" "config_file (emit m st) = config_file st"
  by (simp_all add: emit_def)

lemma print_outcome:
  "print env m st = (st', r) \<Longrightarrow>
   (r = None \<and> st' = emit m st) \<or> (\<exists>s. r = Some (UnicodeEncodeError s) \<and> st' = st)"
  by (auto simp: print_def split: option.splits)

lemma print_fst [simp]:
  "fsys (fst (print env m st)) = fsys st" "config (fst (print env m st)) = config st"
  "stats (fst (print env m st)) = stats st" "config_file (fst (print env m st)) = config_file st"
  by (simp_all add: print_def split: option.splits)

lemma count_directory_simps [simp]:
  "fsys (count_directory st) = fsys st" "config (count_directory st) = config st"
  "out (count_directory st) = out st"
  "files_processed (stats (count_directory st)) = files_processed (stats st)"
  "errors (stats (count_directory st)) = errors (stats st)"
  by (simp_all add: count_directory_def)

lemma count_moved_simps [simp]:
  "fsys (count_moved st) = fsys st" "config (count_moved st) = config st"
  "out (count_moved st) = out st"
  "files_processed (stats (count_moved st)) = files_processed (stats st)"
  "errors (stats (count_moved st)) = errors (stats st)"
  by (simp_all add: count_moved_def)

lemma count_processed_simps [simp]:
  "fsys (count_processed st) = fsys st" "config (count_processed st) = config st"
  "out (count_processed st) = out st"
  "files_processed (stats (count_processed st)) = files_processed (stats st) + 1"
  "errors (stats (count_processed st)) = errors (stats st)"
  by (simp_all add: count_processed_def)

lemma count_error_simps [simp]:
  "fsys (count_error st) = fsys st" "config (count_error st) = config st"
  "out (count_error st) = out st"
  "files_processed (stats (count_error st)) = files_processed (stats st)"
  "errors (stats (count_error st)) = errors (stats st) + 1"
  by (simp_all add: count_error_def)

section \<open>Dry run\<close>

lemma create_subfolders_dry:
  "dry_run (config st) \<Longrightarrow> fst (create_subfolders env category category_path names st fm) = st"
  by (induction names arbitrary: fm) auto

lemma create_category_dry:
  "dry_run (config st) \<Longrightarrow> fst (create_category env organized_path category r st fm) = st"
  by (simp add: create_category_def create_subfolders_dry split: option.splits)

lemma create_categories_dry:
  "dry_run (config st) \<Longrightarrow> fst (create_categories env organized_path rs st fm) = st"
proof (induction rs arbitrary: fm)
  case Nil
  show ?case by simp
next
  case (Cons cr rs)
  obtain category r where cr: "cr = (category, r)" by (cases cr)
  obtain st' res where c: "create_category env organized_path category r st fm = (st', res)"
    by (cases "create_category env organized_path category r st fm")
  with create_category_dry[OF Cons.prems, of env organized_path category r fm]
  have "st' = st" by simp
  with Cons c cr show ?case by (cases res) auto
qed

lemma create_organized_structure_dry:
  "dry_run (config st) \<Longrightarrow> fst (create_organized_structure env st base_path) = st"
proof -
  assume dry: "dry_run (config st)"
  obtain st' res where
    c: "create_categories env (join base_path ''organized'') (rules (config st)) st Map.empty = (st', res)"
    by (cases "create_categories env (join base_path ''organized'') (rules (config st)) st Map.empty")
  with create_categories_dry[OF dry, of env "join base_path ''organized''" "rules (config st)" Map.empty]
  have "st' = st" by simp
  with dry c show ?thesis by (cases res) (auto simp: create_organized_structure_def)
qed

lemma add_date_folder_dry:
  "dry_run (config st) \<Longrightarrow> fst (add_date_folder env st file_path dest_folder) = st"
  by (simp add: add_date_folder_def split: option.splits)

lemma transfer_dry: "dry_run (config st) \<Longrightarrow> fst (transfer st file_path dest_path) = st"
  by (simp add: transfer_def)

lemma add_date_folder_dryD:
  "add_date_folder env st file_path dest_folder = (st1, r) \<Longrightarrow> dry_run (config st) \<Longrightarrow> st1 = st"
  using add_date_folder_dry[of st env file_path dest_folder] by simp

lemma organize_file_dry:
  assumes "dry_run (config st)"
  shows "fsys (fst (organize_file env st file_path fm)) = fsys st \<and>
         config (fst (organize_file env st file_path fm)) = config st"
  unfolding organize_file_def using assms
  by (auto split: sum.splits prod.splits option.splits
           dest!: add_date_folder_dryD print_outcome simp: transfer_dry)

lemma process_file_dry:
  assumes "dry_run (config st)"
  shows "fsys (fst (process_file env fm st file_path)) = fsys st \<and>
         config (fst (process_file env fm st file_path)) = config st"
  using organize_file_dry[OF assms, of env file_path fm]
  by (cases "organize_file env st file_path fm")
     (auto simp: process_file_def split: option.splits prod.splits dest!: print_outcome)

lemma process_files_dry:
  "dry_run (config st) \<Longrightarrow>
   fsys (fst (process_files env fm st files)) = fsys st \<and>
   config (fst (process_files env fm st files)) = config st"
proof (induction files arbitrary: st)
  case Nil
  show ?case by simp
next
  case (Cons f files)
  obtain st1 r where p: "process_file env fm st f = (st1, r)"
    by (cases "process_file env fm st f")
  from process_file_dry[OF Cons.prems, of env fm f] p
  have 1: "fsys st1 = fsys st" "config st1 = config st" by simp_all
  with Cons.prems have "dry_run (config st1)" by simp
  from Cons.IH[OF this] 1 p show ?case by (cases r) simp_all
qed

lemma organize_directory_dry:
  assumes "dry_run (config st)"
  shows "fsys (fst (organize_directory env st source recursive)) = fsys st"
proof (cases "path_exists (fsys st) source")
  case False
  then show ?thesis by (simp add: organize_directory_def)
next
  case True
  let ?st0 = "emit (Mode (dry_run (config st))) (emit (Starting source) st)"
  have dry0: "dry_run (config ?st0)" using assms by simp
  obtain st1 res where c: "create_organized_structure env ?st0 source = (st1, res)"
    by (cases "create_organized_structure env ?st0 source")
  with create_organized_structure_dry[OF dry0, of env source] have st1: "st1 = ?st0" by simp
  show ?thesis
  proof (cases res)
    case (Inl e)
    with True c st1 show ?thesis by (simp add: organize_directory_def)
  next
    case (Inr fm)
    show ?thesis
    proof (cases "files_to_process (config st1) (fsys st1) source recursive")
      case (Inl e)
      with True c st1 Inr show ?thesis by (simp add: organize_directory_def)
    next
      case files: (Inr files)
      have "fsys (fst (process_files env fm ?st0 files)) = fsys ?st0"
        using process_files_dry[OF dry0] by simp
      with True c st1 Inr files show ?thesis
        by (cases "process_files env fm ?st0 files")
           (auto simp: organize_directory_def print_summary_def split: option.splits)
    qed
  qed
qed

lemma write_file_other:
  "write_file t fs' p content = Inr fs'' \<Longrightarrow> q \<noteq> p \<Longrightarrow> map_of fs'' q = map_of fs' q"
  by (auto simp: write_file_def update_conv' split: if_splits option.splits node.splits)

lemma load_config_existing:
  "path_exists (fsys st) (config_file st) \<Longrightarrow> fsys (fst (load_config env st)) = fsys st"
  by (auto simp: load_config_def split: option.splits node.splits)

lemma load_config_other:
  "q \<noteq> config_file st \<Longrightarrow> map_of (fsys (fst (load_config env st))) q = map_of (fsys st) q"
  by (auto simp: load_config_def save_config_def write_file_other
           split: option.splits node.splits sum.splits)

lemma load_config_config_file: "config_file (fst (load_config env st)) = config_file st"
  by (auto simp: load_config_def save_config_def split: option.splits node.splits sum.splits)

lemma init_existing:
  "path_exists fs0 cf \<Longrightarrow> fsys (fst (init env cf fs0)) = fs0"
  using load_config_existing[of "\<lparr>config_file = cf, config = default_config, stats = zero_stats,
                                         fsys = fs0, out = []\<rparr>" env]
  by (auto simp: init_def split: prod.splits option.splits)

lemma init_other:
  "q \<noteq> cf \<Longrightarrow> map_of (fsys (fst (init env cf fs0))) q = map_of fs0 q"
  using load_config_other[of q "\<lparr>config_file = cf, config = default_config, stats = zero_stats,
                                         fsys = fs0, out = []\<rparr>" env]
  by (auto simp: init_def split: prod.splits option.splits)

lemma main_dry:
  assumes "\<not> execute a"
  shows "fsys (fst (main env a fs0)) = fsys (fst (init env (config_path a) fs0))"
proof (cases "init env (config_path a) fs0")
  case (Pair st r)
  show ?thesis
  proof (cases r)
    case None
    have "dry_run (config (st\<lparr>config := apply_flags a (config st)\<rparr>))"
      using assms by (simp add: apply_flags_def)
    from organize_directory_dry[OF this] Pair None show ?thesis by (simp add: main_def)
  next
    case (Some e)
    with Pair show ?thesis by (simp add: main_def)
  qed
qed

text \<open>
  Claim C2, amended. With \<^verbatim>\<open>dry_run\<close> set, \<^verbatim>\<open>organize_directory\<close> leaves the file system
  as it is: no file or directory is created, nothing is moved or copied. A whole
  invocation of the tool without \<^verbatim>\<open>--execute\<close> leaves the file system as it is when the
  configuration file exists; when it does not, the only entry that can change is the
  configuration file itself, which \<^verbatim>\<open>load_config\<close> writes with the defaults.
\<close>

theorem dry_run_frame:
  "(dry_run (config st) \<longrightarrow>
      fsys (fst (organize_directory env st source recursive)) = fsys st) \<and>
   (\<not> execute a \<longrightarrow> path_exists fs0 (config_path a) \<longrightarrow>
      fsys (fst (main env a fs0)) = fs0) \<and>
   (\<not> execute a \<longrightarrow> p \<noteq> config_path a \<longrightarrow>
      map_of (fsys (fst (main env a fs0))) p = map_of fs0 p)"
  by (simp add: organize_directory_dry main_dry init_existing init_other)

theorem dry_run_frame_witness:
  "fsys (fst (organize_directory example_env example_dry_state [''data''] True)) = example_fs \<and>
   fsys (fst (main example_env dry_args example_fs_configured)) = example_fs_configured \<and>
   map_of (fsys (fst (main example_env dry_args example_fs_configured)))
     [''data'', ''screenshot_2024.png''] = Some (File 5 ''image'')"
  using dry_run_frame[of example_dry_state example_env "[''data'']" True dry_args
                         example_fs_configured "[''data'', ''screenshot_2024.png'']"]
  by (simp add: dry_args_def example_fs_def example_fs_configured_def example_dry_state_def
                path_exists_def)

text \<open>
  The claim as stated fails: without \<^verbatim>\<open>--execute\<close>, on a file system that has no
  configuration file, the run creates one.
\<close>

theorem dry_run_writes_config_counterexample:
  "\<not> execute dry_args \<and>
   map_of example_fs [''organizer_config.json''] = None \<and>
   map_of (fsys (fst (main example_env dry_args example_fs))) [''organizer_config.json'']
     = Some (File 100 ''{}'')"
proof -
  have e: "\<not> execute dry_args" by (simp add: dry_args_def)
  have i: "map_of (fsys (fst (init example_env (config_path dry_args) example_fs)))
             [''organizer_config.json''] = Some (File 100 ''{}'')"
    by code_simp
  have n: "map_of example_fs [''organizer_config.json''] = None"
    by (simp add: example_fs_def)
  show ?thesis using e i n by (simp add: main_dry[OF e])
qed

section \<open>A missing source directory\<close>

text \<open>
  Claim C5. When the source directory does not exist, \<^verbatim>\<open>organize_directory\<close> reports
  the error and returns at once: the file system, the counters and the configuration are
  as before, so no directory is created, nothing is moved or copied, and no file is
  processed.
\<close>

theorem missing_source_aborts:
  assumes "\<not> path_exists (fsys st) source"
  shows "snd (organize_directory env st source recursive) = None \<and>
         out (fst (organize_directory env st source recursive)) = out st @ [SourceMissing source] \<and>
         fsys (fst (organize_directory env st source recursive)) = fsys st \<and>
         stats (fst (organize_directory env st source recursive)) = stats st \<and>
         config (fst (organize_directory env st source recursive)) = config st"
  using assms by (simp add: organize_directory_def)

theorem missing_source_aborts_witness:
  "out (fst (organize_directory example_env example_live_state [''nowhere''] False))
     = [SourceMissing [''nowhere'']] \<and>
   fsys (fst (organize_directory example_env example_live_state [''nowhere''] False)) = example_fs \<and>
   stats (fst (organize_directory example_env example_live_state [''nowhere''] False)) = zero_stats"
  using missing_source_aborts[of example_live_state "[''nowhere'']" example_env False]
  by (simp add: example_live_state_def example_fs_def path_exists_def)

section \<open>A file name the output cannot encode\<close>

text \<open>
  The example directory holds three files; the name of the second has a byte the
  standard output cannot encode. The run below executes with the default configuration.
  The first file is copied. For the second, the action line of \<^verbatim>\<open>organize_file\<close> raises
  \<^verbatim>\<open>UnicodeEncodeError\<close>; the handler catches it and prints the name again, which raises
  inside the handler, before \<^verbatim>\<open>errors += 1\<close>. That exception leaves \<^verbatim>\<open>organize_directory\<close>:
  the third file is never processed and no summary is printed.
\<close>

lemma example_badname_run:
  "(case organize_directory example_env example_badname_state [''data''] False of
      (st, r) \<Rightarrow>
        (r, files_processed (stats st), errors (stats st), out st,
         map_of (fsys st)
           [''data'', ''organized'', ''Documents'', ''text_files'', ''2024-03'', ''a.txt''],
         map_of (fsys st)
           [''data'', ''organized'', ''Documents'', ''text_files'', ''2024-03'', ''c.txt''])) =
   (Some (UnicodeEncodeError bad_name), 1, 0,
    [Starting [''data''], Mode False,
     Action ''COPY'' ''a.txt''
       [''data'', ''organized'', ''Documents'', ''text_files'', ''2024-03'', ''a.txt'']],
    Some (File 1 ''a''), None)"
  by code_simp

lemma example_badname_candidates:
  "files_to_process default_config example_badname_fs [''data''] False =
     Inr [[''data'', ''a.txt''], [''data'', bad_name], [''data'', ''c.txt'']]"
  by code_simp

text \<open>
  Claim C6 says that an exception raised while one file is processed is caught and
  counted and that the run goes on. On the example the exception of the second file
  ends the run: \<^verbatim>\<open>errors\<close> is still zero, the third candidate is not organized, and
  \<^verbatim>\<open>organize_directory\<close> is left by the exception.
\<close>

theorem unencodable_name_aborts_run:
  "files_to_process default_config example_badname_fs [''data''] False =
     Inr [[''data'', ''a.txt''], [''data'', bad_name], [''data'', ''c.txt'']] \<and>
   snd (organize_directory example_env example_badname_state [''data''] False) =
     Some (UnicodeEncodeError bad_name) \<and>
   errors (stats (fst (organize_directory example_env example_badname_state [''data''] False))) = 0 \<and>
   map_of (fsys (fst (organize_directory example_env example_badname_state [''data''] False)))
     [''data'', ''organized'', ''Documents'', ''text_files'', ''2024-03'', ''a.txt'']
     = Some (File 1 ''a'') \<and>
   map_of (fsys (fst (organize_directory example_env example_badname_state [''data''] False)))
     [''data'', ''organized'', ''Documents'', ''text_files'', ''2024-03'', ''c.txt'']
     = None"
  using example_badname_run example_badname_candidates
  by (cases "organize_directory example_env example_badname_state [''data''] False") simp

text \<open>
  Claim C10 says that every candidate adds one to exactly one of \<^verbatim>\<open>files_processed\<close> and
  \<^verbatim>\<open>errors\<close>. On the example three candidates are gathered and the two counters add up to
  one when \<^verbatim>\<open>organize_directory\<close> is left: the second candidate raised both counters by
  nothing, and the third was not reached.
\<close>

theorem unencodable_name_breaks_counters:
  "files_to_process default_config example_badname_fs [''data''] False =
     Inr [[''data'', ''a.txt''], [''data'', bad_name], [''data'', ''c.txt'']] \<and>
   files_processed (stats example_badname_state) + errors (stats example_badname_state) = 0 \<and>
   files_processed (stats (fst (organize_directory example_env example_badname_state [''data''] False))) +
   errors (stats (fst (organize_directory example_env example_badname_state [''data''] False))) = 1"
  using example_badname_run example_badname_candidates
  by (cases "organize_directory example_env example_badname_state [''data''] False")
     (simp add: example_badname_state_def zero_stats_def)

section \<open>An unreadable configuration\<close>



section \<open>The collision loop\<close>

lemma conflict_loop_free:
  "\<not> path_exists fs' (fst (conflict_loop fs' dest_folder file_path counter dest_path))"
proof (induction fs' dest_folder file_path counter dest_path rule: conflict_loop.induct)
  case (1 fs' dest_folder file_path counter dest_path)
  then show ?case
    by (subst conflict_loop.simps) (simp split: if_splits)
qed

lemma conflict_loop_counter:
  "snd (conflict_loop fs' dest_folder file_path counter dest_path) \<le>
     counter + (if path_exists fs' dest_path then 1 else 0) + pending fs' dest_folder file_path counter"
proof (induction fs' dest_folder file_path counter dest_path rule: conflict_loop.induct)
  case (1 fs' dest_folder file_path counter dest_path)
  show ?case
  proof (cases "path_exists fs' dest_path")
    case False
    then show ?thesis by (subst conflict_loop.simps) simp
  next
    case True
    from "1.IH"[OF True] pending_step[of fs' dest_folder file_path counter] True
    show ?thesis
      by (subst conflict_loop.simps) (auto split: if_splits)
  qed
qed

lemma pending_le_length: "pending fs' dest_folder file_path counter \<le> length fs'"
proof -
  let ?K = "{k. counter \<le> k \<and> path_exists fs' (numbered dest_folder file_path k)}"
  have "numbered dest_folder file_path ` ?K \<subseteq> fst ` set fs'"
    by (force simp: path_exists_def dest!: map_of_SomeD)
  moreover have "inj_on (numbered dest_folder file_path) ?K"
    by (auto simp: inj_on_def dest: numbered_inj)
  ultimately have "card ?K \<le> card (fst ` set fs')"
    by (metis card_image card_mono finite_imageI finite_set)
  also have "\<dots> \<le> length fs'"
    by (metis card_image_le card_length finite_set le_trans)
  finally show ?thesis by (simp add: pending_def)
qed


text \<open>
  Claim C8. Whatever the finite table of existing entries, the collision loop returns
  (\<open>conflict_loop\<close> is total: its termination is proved where it is defined, from the
  finiteness of the table and the injectivity of the numbered names), and the name it
  returns is not in the table. It makes at most one iteration more than the table has
  entries: the counter it leaves is at most the number of entries plus two.
\<close>

theorem collision_loop_terminates_free:
  "\<not> path_exists fs' (resolve_dest_path fs' dest_folder file_path) \<and>
   snd (conflict_loop fs' dest_folder file_path 1 (join dest_folder (name file_path)))
     \<le> length fs' + 2"
proof -
  have "snd (conflict_loop fs' dest_folder file_path 1 (join dest_folder (name file_path)))
          \<le> 1 + 1 + pending fs' dest_folder file_path 1"
    using conflict_loop_counter[of fs' dest_folder file_path 1 "join dest_folder (name file_path)"]
    by (auto split: if_splits)
  with pending_le_length[of fs' dest_folder file_path 1] show ?thesis
    by (simp add: resolve_dest_path_def conflict_loop_free)
qed

theorem collision_loop_terminates_free_witness:
  "resolve_dest_path example_collisions [''out''] [''in'', ''x.txt''] = [''out'', ''x_2.txt''] \<and>
   \<not> path_exists example_collisions [''out'', ''x_2.txt''] \<and>
   snd (conflict_loop example_collisions [''out''] [''in'', ''x.txt''] 1
          (join [''out''] (name [''in'', ''x.txt'']))) \<le> 8"
proof -
  have r: "resolve_dest_path example_collisions [''out''] [''in'', ''x.txt''] = [''out'', ''x_2.txt'']"
    by code_simp
  have l: "length example_collisions = 6" by (simp add: example_collisions_def)
  show ?thesis
    using collision_loop_terminates_free[of example_collisions "[''out'']" "[''in'', ''x.txt'']"] r l
    by simp
qed

section \<open>Placing a file whose name is taken\<close>

lemma os_mkdir_Inr:
  "os_mkdir t fs' p = Inr fs'' \<Longrightarrow> map_of fs'' = (map_of fs')(p \<mapsto> Dir t) \<and> map_of fs' p = None"
  by (auto simp: os_mkdir_def path_exists_def update_conv' split: if_splits option.splits node.splits)

lemma Path_mkdir_keeps:
  "Path_mkdir t fs' p parents exist_ok = Inr fs'' \<Longrightarrow> map_of fs' q = Some n \<Longrightarrow>
   map_of fs'' q = Some n"
proof (induction t fs' p parents exist_ok arbitrary: fs'' rule: Path_mkdir.induct)
  case (1 t fs' p parents exist_ok)
  show ?case
  proof (cases "os_mkdir t fs' p")
    case (Inr fs1)
    with "1.prems" have "fs'' = fs1" by (simp add: Path_mkdir.simps[of t fs' p])
    with os_mkdir_Inr[OF Inr] "1.prems"(2) show ?thesis by auto
  next
    case (Inl e)
    show ?thesis
    proof (cases "is_FileNotFoundError e")
      case False
      with Inl "1.prems" show ?thesis
        by (simp add: Path_mkdir.simps[of t fs' p] split: if_splits)
    next
      case True
      with Inl "1.prems"(1) have np: "\<not> (\<not> parents \<or> parent p = p)"
        by (simp add: Path_mkdir.simps[of t fs' p] split: if_splits)
      with Inl True "1.prems"(1) obtain fs1 where
        a: "Path_mkdir t fs' (parent p) True True = Inr fs1" and
        b: "Path_mkdir t fs1 p False exist_ok = Inr fs''"
        by (auto simp: Path_mkdir.simps[of t fs' p] split: sum.splits)
      from "1.IH"(1)[OF Inl True np a "1.prems"(2)] have "map_of fs1 q = Some n" .
      from "1.IH"(2)[OF Inl True np a b this] show ?thesis .
    qed
  qed
qed

lemma Path_mkdir_is_dir:
  "Path_mkdir t fs' p parents exist_ok = Inr fs'' \<Longrightarrow> is_dir fs'' p"
proof (induction t fs' p parents exist_ok arbitrary: fs'' rule: Path_mkdir.induct)
  case (1 t fs' p parents exist_ok)
  show ?case
  proof (cases "os_mkdir t fs' p")
    case (Inr fs1)
    with "1.prems" have "fs'' = fs1" by (simp add: Path_mkdir.simps[of t fs' p])
    with os_mkdir_Inr[OF Inr] show ?thesis by (simp add: is_dir_def)
  next
    case (Inl e)
    show ?thesis
    proof (cases "is_FileNotFoundError e")
      case False
      with Inl "1.prems" show ?thesis
        by (simp add: Path_mkdir.simps[of t fs' p] split: if_splits)
    next
      case True
      with Inl "1.prems"(1) have np: "\<not> (\<not> parents \<or> parent p = p)"
        by (simp add: Path_mkdir.simps[of t fs' p] split: if_splits)
      with Inl True "1.prems"(1) obtain fs1 where
        a: "Path_mkdir t fs' (parent p) True True = Inr fs1" and
        b: "Path_mkdir t fs1 p False exist_ok = Inr fs''"
        by (auto simp: Path_mkdir.simps[of t fs' p] split: sum.splits)
      from "1.IH"(2)[OF Inl True np a b] show ?thesis .
    qed
  qed
qed

lemma is_dir_keeps:
  "is_dir fs' q \<Longrightarrow> (\<And>n. map_of fs' q = Some n \<Longrightarrow> map_of fs'' q = Some n) \<Longrightarrow> is_dir fs'' q"
  by (auto simp: is_dir_def split: option.splits node.splits)










section \<open>The screenshot example\<close>

lemma create_subfolders_plan:
  "create_subfolders env category category_path names st fm = (st', Inr fm') \<Longrightarrow>
   fm' = plan_subfolders category category_path names fm"
  by (induction names arbitrary: st fm) (auto split: if_splits sum.splits)

lemma create_category_plan:
  "create_category env organized_path category r st fm = (st', Inr fm') \<Longrightarrow>
   fm' = (case subfolders r of
            None \<Rightarrow> fm(category \<mapsto> join organized_path (folder r))
          | Some sfs \<Rightarrow>
              plan_subfolders category (join organized_path (folder r)) (map fst sfs)
                (fm(category \<mapsto> join organized_path (folder r))))"
  by (auto simp: create_category_def split: if_splits sum.splits option.splits
           dest: create_subfolders_plan)

lemma create_categories_plan:
  "create_categories env organized_path rs st fm = (st', Inr fm') \<Longrightarrow>
   fm' = plan_categories organized_path rs fm"
proof (induction rs arbitrary: st fm)
  case Nil
  then show ?case by simp
next
  case (Cons cr rs)
  obtain category r where cr: "cr = (category, r)" by (cases cr)
  from Cons.prems cr obtain st1 fm1 where
    1: "create_category env organized_path category r st fm = (st1, Inr fm1)" and
    2: "create_categories env organized_path rs st1 fm1 = (st', Inr fm')"
    by (auto split: prod.splits sum.splits)
  from Cons.IH[OF 2] create_category_plan[OF 1] cr show ?case by simp
qed

lemma create_organized_structure_plan:
  "create_organized_structure env st base_path = (st', Inr fm) \<Longrightarrow>
   fm = (plan_categories (join base_path ''organized'') (rules (config st)) Map.empty)
          (''misc'' \<mapsto> join (join base_path ''organized'') ''Miscellaneous'')"
  by (auto simp: create_organized_structure_def split: prod.splits sum.splits if_splits
           dest: create_categories_plan)

lemma default_plan_images:
  "plan_categories (join source ''organized'') default_rules Map.empty ''images_screenshots'' =
     Some (source @ [''organized'', ''Images'', ''screenshots'']) \<and>
   plan_categories (join source ''organized'') default_rules Map.empty ''images'' =
     Some (source @ [''organized'', ''Images''])"
  by (simp add: default_rules_def join_def)

subsection \<open>The directories a live run creates\<close>

lemma is_dir_mono:
  "is_dir fs' q \<Longrightarrow> \<forall>q n. map_of fs' q = Some n \<longrightarrow> map_of fs'' q = Some n \<Longrightarrow>
   is_dir fs'' q"
  by (auto simp: is_dir_def split: option.splits node.splits)

lemma create_subfolders_live:
  assumes "create_subfolders env category category_path names st fm = (st', Inr fm')"
    and "\<not> dry_run (config st)"
  shows "(\<forall>s\<in>set names. is_dir (fsys st') (join category_path s)) \<and>
         (\<forall>q n. map_of (fsys st) q = Some n \<longrightarrow> map_of (fsys st') q = Some n) \<and>
         config st' = config st"
  using assms
proof (induction names arbitrary: st fm)
  case Nil
  then show ?case by simp
next
  case (Cons s names)
  from Cons.prems obtain fs1 where
    mk: "Path_mkdir (now env) (fsys st) (join category_path s) False True = Inr fs1" and
    rest: "create_subfolders env category category_path names (count_directory (st\<lparr>fsys := fs1\<rparr>))
             (fm(category @ ''_'' @ s \<mapsto> join category_path s)) = (st', Inr fm')"
    by (auto split: sum.splits)
  have live1: "\<not> dry_run (config (count_directory (st\<lparr>fsys := fs1\<rparr>)))"
    using Cons.prems(2) by simp
  from Cons.IH[OF rest live1] have
    ih: "\<forall>s\<in>set names. is_dir (fsys st') (join category_path s)"
        "\<forall>q n. map_of fs1 q = Some n \<longrightarrow> map_of (fsys st') q = Some n"
        "config st' = config st"
    by simp_all
  have "is_dir fs1 (join category_path s)" using mk by (rule Path_mkdir_is_dir)
  then have "is_dir (fsys st') (join category_path s)"
    using ih(2) by (rule is_dir_mono)
  moreover have "\<forall>q n. map_of (fsys st) q = Some n \<longrightarrow> map_of (fsys st') q = Some n"
    using Path_mkdir_keeps[OF mk] ih(2) by blast
  ultimately show ?case using ih(1,3) by simp
qed

lemma create_category_live:
  assumes "create_category env organized_path category r st fm = (st', Inr fm')"
    and "\<not> dry_run (config st)"
  shows "(\<forall>sfs. subfolders r = Some sfs \<longrightarrow>
            (\<forall>s\<in>set (map fst sfs). is_dir (fsys st') (join (join organized_path (folder r)) s))) \<and>
         (\<forall>q n. map_of (fsys st) q = Some n \<longrightarrow> map_of (fsys st') q = Some n) \<and>
         config st' = config st"
proof -
  from assms obtain fs1 where
    mk: "Path_mkdir (now env) (fsys st) (join organized_path (folder r)) True True = Inr fs1"
    by (auto simp: create_category_def split: sum.splits)
  let ?st1 = "count_directory (st\<lparr>fsys := fs1\<rparr>)"
  have live1: "\<not> dry_run (config ?st1)" using assms(2) by simp
  show ?thesis
  proof (cases "subfolders r")
    case None
    with assms mk have "st' = ?st1" by (simp add: create_category_def)
    with None Path_mkdir_keeps[OF mk] show ?thesis by auto
  next
    case (Some sfs)
    with assms mk have
      sub: "create_subfolders env category (join organized_path (folder r)) (map fst sfs) ?st1
              (fm(category \<mapsto> join organized_path (folder r))) = (st', Inr fm')"
      by (simp add: create_category_def)
    from create_subfolders_live[OF sub live1] Some Path_mkdir_keeps[OF mk] show ?thesis
      by auto
  qed
qed

lemma create_categories_live:
  assumes "create_categories env organized_path rs st fm = (st', Inr fm')"
    and "\<not> dry_run (config st)"
  shows "(\<forall>cr\<in>set rs. \<forall>sfs. subfolders (snd cr) = Some sfs \<longrightarrow>
            (\<forall>s\<in>set (map fst sfs).
               is_dir (fsys st') (join (join organized_path (folder (snd cr))) s))) \<and>
         (\<forall>q n. map_of (fsys st) q = Some n \<longrightarrow> map_of (fsys st') q = Some n) \<and>
         config st' = config st"
  using assms
proof (induction rs arbitrary: st fm)
  case Nil
  then show ?case by simp
next
  case (Cons cr rs)
  obtain category r where cr: "cr = (category, r)" by (cases cr)
  from Cons.prems cr obtain st1 fm1 where
    1: "create_category env organized_path category r st fm = (st1, Inr fm1)" and
    2: "create_categories env organized_path rs st1 fm1 = (st', Inr fm')"
    by (auto split: prod.splits sum.splits)
  note c = create_category_live[OF 1 Cons.prems(2)]
  then have live1: "\<not> dry_run (config st1)" using Cons.prems(2) by simp
  note ih = Cons.IH[OF 2 live1]
  have keep1: "\<forall>q n. map_of (fsys st1) q = Some n \<longrightarrow> map_of (fsys st') q = Some n"
    using ih by blast
  have "is_dir (fsys st') (join (join organized_path (folder r)) s)"
    if "subfolders r = Some sfs" "s \<in> set (map fst sfs)" for sfs s
  proof -
    from c that have "is_dir (fsys st1) (join (join organized_path (folder r)) s)" by blast
    then show ?thesis using keep1 by (rule is_dir_mono)
  qed
  then have "\<forall>sfs. subfolders r = Some sfs \<longrightarrow>
          (\<forall>s\<in>set (map fst sfs). is_dir (fsys st') (join (join organized_path (folder r)) s))"
    by blast
  moreover have "\<forall>q n. map_of (fsys st) q = Some n \<longrightarrow> map_of (fsys st') q = Some n"
    using c keep1 by blast
  ultimately show ?case using ih c cr by simp
qed

lemma create_organized_structure_live:
  assumes "create_organized_structure env st base_path = (st', Inr fm)"
    and "\<not> dry_run (config st)"
  shows "(\<forall>cr\<in>set (rules (config st)). \<forall>sfs. subfolders (snd cr) = Some sfs \<longrightarrow>
            (\<forall>s\<in>set (map fst sfs).
               is_dir (fsys st') (join (join (join base_path ''organized'') (folder (snd cr))) s))) \<and>
         config st' = config st"
proof -
  from assms(1) obtain st1 fm1 where
    1: "create_categories env (join base_path ''organized'') (rules (config st)) st Map.empty
          = (st1, Inr fm1)"
    by (auto simp: create_organized_structure_def split: prod.splits sum.splits)
  note c = create_categories_live[OF 1 assms(2)]
  then have live1: "\<not> dry_run (config st1)" using assms(2) by simp
  with assms(1) 1 obtain fs2 where
    mk: "Path_mkdir (now env) (fsys st1)
           (join (join base_path ''organized'') ''Miscellaneous'') True True = Inr fs2" and
    st': "st' = st1\<lparr>fsys := fs2\<rparr>"
    by (auto simp: create_organized_structure_def split: sum.splits)
  have keep: "\<forall>q n. map_of (fsys st1) q = Some n \<longrightarrow> map_of (fsys st') q = Some n"
    using Path_mkdir_keeps[OF mk] st' by auto
  have "is_dir (fsys st') (join (join (join base_path ''organized'') (folder (snd cr))) s)"
    if "cr \<in> set (rules (config st))" "subfolders (snd cr) = Some sfs" "s \<in> set (map fst sfs)"
    for cr sfs s
  proof -
    from c that
    have "is_dir (fsys st1) (join (join (join base_path ''organized'') (folder (snd cr))) s)"
      by blast
    then show ?thesis using keep by (rule is_dir_mono)
  qed
  moreover have "config st' = config st" using c st' by simp
  ultimately show ?thesis by blast
qed

lemma create_organized_structure_config:
  "create_organized_structure env st base_path = (st', r) \<Longrightarrow> config st' = config st"
proof (cases "dry_run (config st)")
  case True
  assume "create_organized_structure env st base_path = (st', r)"
  with create_organized_structure_dry[OF True, of env base_path] show ?thesis by simp
next
  case False
  assume a: "create_organized_structure env st base_path = (st', r)"
  show ?thesis
  proof (cases r)
    case (Inr fm)
    with a create_organized_structure_live[OF _ False] show ?thesis by blast
  next
    case (Inl e)
    have sub: "\<And>category cp names st fm st1 r1.
        create_subfolders env category cp names st fm = (st1, r1) \<Longrightarrow> config st1 = config st"
    proof -
      fix category cp names st fm st1 r1
      show "create_subfolders env category cp names st fm = (st1, r1) \<Longrightarrow> config st1 = config st"
        by (induction names arbitrary: st fm) (auto split: if_splits sum.splits)
    qed
    have cat: "\<And>op category r st fm st1 r1.
        create_category env op category r st fm = (st1, r1) \<Longrightarrow> config st1 = config st"
      by (auto simp: create_category_def split: if_splits sum.splits option.splits dest: sub)
    have cats: "\<And>op rs st fm st1 r1.
        create_categories env op rs st fm = (st1, r1) \<Longrightarrow> config st1 = config st"
    proof -
      fix op rs st fm st1 r1
      show "create_categories env op rs st fm = (st1, r1) \<Longrightarrow> config st1 = config st"
      proof (induction rs arbitrary: st fm)
        case Nil
        then show ?case by simp
      next
        case (Cons cr rs)
        obtain category r where cr: "cr = (category, r)" by (cases cr)
        obtain st2 r2 where 1: "create_category env op category r st fm = (st2, r2)"
          by (cases "create_category env op category r st fm")
        from Cons.prems cr 1 Cons.IH cat[OF 1] show ?case
          by (cases r2) auto
      qed
    qed
    from a show ?thesis
      by (auto simp: create_organized_structure_def split: prod.splits sum.splits if_splits
               dest: cats)
  qed
qed

subsection \<open>Creating the date folder\<close>

lemma Path_mkdir_child:
  assumes "is_dir fs' dp" and "\<not> is_file fs' (dp @ [x])"
  shows "\<exists>fs''. Path_mkdir t fs' (dp @ [x]) False True = Inr fs'' \<and> is_dir fs'' (dp @ [x]) \<and>
           (\<forall>q. q \<noteq> dp @ [x] \<longrightarrow> map_of fs'' q = map_of fs' q)"
proof (cases "path_exists fs' (dp @ [x])")
  case True
  with assms(2) have d: "is_dir fs' (dp @ [x])"
    by (auto simp: path_exists_def is_dir_def is_file_def split: option.splits node.splits)
  from True have "os_mkdir t fs' (dp @ [x]) = Inl (FileExistsError (dp @ [x]))"
    by (simp add: os_mkdir_def)
  with d show ?thesis by (simp add: Path_mkdir.simps[of t fs' "dp @ [x]"])
next
  case False
  with assms(1) have "os_mkdir t fs' (dp @ [x]) = Inr (AList.update (dp @ [x]) (Dir t) fs')"
    by (auto simp: os_mkdir_def parent_def is_dir_def split: option.splits node.splits)
  then show ?thesis
    by (simp add: Path_mkdir.simps[of t fs' "dp @ [x]"] is_dir_def update_conv')
qed

lemma strftime_Ym_nonempty: "strftime_Ym ym \<noteq> []"
  by (simp add: strftime_Ym_def)

lemma name_snoc [simp]: "name (p @ [x]) = x"
  by (simp add: name_def)

lemma parent_snoc [simp]: "parent (p @ [x]) = p"
  by (simp add: parent_def)

lemma conflict_loop_free_start:
  "\<not> path_exists fs' dest_path \<Longrightarrow>
   conflict_loop fs' dest_folder file_path counter dest_path = (dest_path, counter)"
  by (simp add: conflict_loop.simps[of fs' dest_folder file_path])

lemma screenshot_category:
  "rules cfg = default_rules \<Longrightarrow>
   get_file_category cfg (source @ [''screenshot_2024.png'']) = (''images'', ''screenshots'')"
proof -
  have "scan_rules default_rules (lower (stem_of ''screenshot_2024.png''))
          (lower (suffix_of ''screenshot_2024.png'')) = (''images'', ''screenshots'')"
    by code_simp
  then show "rules cfg = default_rules \<Longrightarrow> ?thesis"
    by (simp add: get_file_category_def stem_def path_suffix_def)
qed

lemma transfer_live_succeeds:
  assumes "\<not> dry_run (config st)" "map_of (fsys st) f = Some (File t c)"
    "\<not> path_exists (fsys st) dest" "is_dir (fsys st) (parent dest)"
  shows "snd (transfer st f dest) = None \<and>
         map_of (fsys (fst (transfer st f dest))) dest = Some (File t c) \<and>
         out (fst (transfer st f dest)) = out st"
proof -
  from assms(3) have nd: "\<not> is_dir (fsys st) dest" "map_of (fsys st) dest = None"
    by (auto simp: is_dir_def path_exists_def)
  from assms(2) nd(2) have ne: "f \<noteq> dest" by auto
  from assms(4) obtain t' where p: "map_of (fsys st) (parent dest) = Some (Dir t')"
    by (auto simp: is_dir_def split: option.splits node.splits)
  have c: "shutil_copy2 (fsys st) f dest = Inr (AList.update dest (File t c) (fsys st))"
    using assms(2) nd ne p by (simp add: shutil_copy2_def path_exists_def)
  have m: "shutil_move (fsys st) f dest =
             Inr (AList.update dest (File t c) (AList.delete f (fsys st)))"
    using assms(2) nd ne p by (simp add: shutil_move_def path_exists_def)
  show ?thesis
    using assms(1) c m by (simp add: transfer_def update_conv')
qed

lemma screenshot_placement_at:
  assumes default: "rules (config st0) = default_rules"
    and dates: "create_date_folders (config st0)"
    and built: "create_organized_structure env st0 source = (st, Inr fm)"
    and isfile: "map_of (fsys st) (source @ [''screenshot_2024.png'']) = Some (File t c)"
    and nofile: "\<not> is_file (fsys st)
        (source @ [''organized'', ''Images'', ''screenshots'', strftime_Ym (fromtimestamp env t)])"
    and free: "\<not> path_exists (fsys st)
        (source @ [''organized'', ''Images'', ''screenshots'', strftime_Ym (fromtimestamp env t),
                   ''screenshot_2024.png''])"
    and enc_name: "stdout_encodes env ''screenshot_2024.png''"
    and enc_dest: "stdout_encodes env
        (str_rel (drop (length (parent source))
           (source @ [''organized'', ''Images'', ''screenshots'', strftime_Ym (fromtimestamp env t),
                      ''screenshot_2024.png''])))"
  shows "get_file_category (config st) (source @ [''screenshot_2024.png'']) =
           (''images'', ''screenshots'') \<and>
         snd (organize_file env st (source @ [''screenshot_2024.png'']) fm) = None \<and>
         out (fst (organize_file env st (source @ [''screenshot_2024.png'']) fm)) =
           out st @
           [Action (if backup_enabled (config st) then ''COPY'' else ''MOVE'') ''screenshot_2024.png''
              (drop (length (parent source))
                 (source @ [''organized'', ''Images'', ''screenshots'',
                            strftime_Ym (fromtimestamp env t), ''screenshot_2024.png'']))] \<and>
         (\<not> dry_run (config st) \<longrightarrow>
            map_of (fsys (fst (organize_file env st (source @ [''screenshot_2024.png'']) fm)))
              (source @ [''organized'', ''Images'', ''screenshots'',
                         strftime_Ym (fromtimestamp env t), ''screenshot_2024.png''])
              = Some (File t c)) \<and>
         (dry_run (config st) \<longrightarrow>
            fsys (fst (organize_file env st (source @ [''screenshot_2024.png'']) fm)) = fsys st)"
proof -
  let ?f = "source @ [''screenshot_2024.png'']"
  let ?ym = "strftime_Ym (fromtimestamp env t)"
  let ?base = "source @ [''organized'', ''Images'', ''screenshots'']"
  let ?day = "?base @ [?ym]"
  let ?dest = "?day @ [''screenshot_2024.png'']"
  have cfg: "config st = config st0"
    using built by (rule create_organized_structure_config)
  have cat: "get_file_category (config st) ?f = (''images'', ''screenshots'')"
    using default cfg by (simp add: screenshot_category)
  have fm: "fm ''images_screenshots'' = Some ?base" "fm ''images'' = Some (source @ [''organized'', ''Images''])"
    using create_organized_structure_plan[OF built] default
          default_plan_images[of source]
    by simp_all
  have look: "lookup_dest_folder fm ''images'' ''screenshots'' = Inr ?base"
    using fm by (simp add: lookup_dest_folder_def)
  have jday: "join ?base ?ym = ?day"
    using strftime_Ym_nonempty[of "fromtimestamp env t"] by (simp add: join_def)
  have jdest: "join ?day (name ?f) = ?dest" by (simp add: join_def)
  have rel: "relative_to ?dest (parent (parent ?f)) = Inr (drop (length (parent source)) ?dest)"
  proof -
    have "prefix (butlast source) (butlast source @ (if source = [] then [] else [last source]) @
            [''organized'', ''Images'', ''screenshots'', ?ym, ''screenshot_2024.png''])"
      by (rule prefixI) simp
    moreover have "butlast source @ (if source = [] then [] else [last source]) = source"
      by simp
    ultimately have "prefix (butlast source) ?dest"
      by (metis append.assoc append_Cons append_Nil)
    then show ?thesis by (simp add: relative_to_def parent_def)
  qed
  have free': "\<not> path_exists (fsys st) ?dest" using free by simp
  have pr: "print env (Action a ''screenshot_2024.png''
                (drop (length (parent source))
                   (source @ [''organized'', ''Images'', ''screenshots'', ?ym,
                              ''screenshot_2024.png'']))) s =
              (emit (Action a ''screenshot_2024.png''
                (drop (length (parent source))
                   (source @ [''organized'', ''Images'', ''screenshots'', ?ym,
                              ''screenshot_2024.png'']))) s, None)"
    for a s
    using enc_name enc_dest by (simp add: print_def del: drop_append)
  have nofile': "\<not> is_file (fsys st) ?day" using nofile by simp
  show ?thesis
  proof (cases "dry_run (config st)")
    case True
    have date: "add_date_folder env st ?f ?base = (st, Inr ?day)"
      using True dates cfg isfile jday by (simp add: add_date_folder_def)
    have res: "resolve_dest_path (fsys st) ?day ?f = ?dest"
      using free' jdest by (simp add: resolve_dest_path_def conflict_loop_free_start)
    have "organize_file env st ?f fm =
            (emit (Action (if \<not> backup_enabled (config st) then ''MOVE'' else ''COPY'')
                      ''screenshot_2024.png'' (drop (length (parent source)) ?dest)) st, None)"
      using cat look date res rel True
      by (simp add: organize_file_def transfer_def pr del: drop_append)
    with cat True show ?thesis by simp
  next
    case False
    then have live0: "\<not> dry_run (config st0)" using cfg by simp
    have img: "(''images'', snd (hd default_rules)) \<in> set (rules (config st0))"
      using default by (simp add: default_rules_def)
    have sub: "subfolders (snd (hd default_rules)) =
                 Some [(''screenshots'', [''screenshot'', ''screen_shot'', ''capture'']),
                       (''photos'', [''photo'', ''img'', ''picture'']),
                       (''icons'', [''icon'', ''ico''])]"
      "folder (snd (hd default_rules)) = ''Images''"
      by (simp_all add: default_rules_def)
    from create_organized_structure_live[OF built live0] img sub(1)
    have "is_dir (fsys st)
            (join (join (join source ''organized'') (folder (snd (hd default_rules)))) ''screenshots'')"
      by fastforce
    then have base: "is_dir (fsys st) ?base" using sub(2) by (simp add: join_def)
    from Path_mkdir_child[OF base nofile', of "now env"] obtain fs1 where
      mk: "Path_mkdir (now env) (fsys st) ?day False True = Inr fs1" and
      day: "is_dir fs1 ?day" and
      same: "\<forall>q. q \<noteq> ?day \<longrightarrow> map_of fs1 q = map_of (fsys st) q"
      by blast
    let ?st1 = "st\<lparr>fsys := fs1\<rparr>"
    have date: "add_date_folder env st ?f ?base = (?st1, Inr ?day)"
      using False dates cfg isfile jday mk by (simp add: add_date_folder_def)
    have free1: "\<not> path_exists (fsys ?st1) ?dest"
      using free' same by (simp add: path_exists_def)
    have file1: "map_of (fsys ?st1) ?f = Some (File t c)"
      using isfile same by simp
    have res: "resolve_dest_path (fsys ?st1) ?day ?f = ?dest"
      using free1 jdest by (simp add: resolve_dest_path_def conflict_loop_free_start)
    let ?m = "Action (if \<not> backup_enabled (config st) then ''MOVE'' else ''COPY'')
                ''screenshot_2024.png'' (drop (length (parent source)) ?dest)"
    have org: "organize_file env st ?f fm = transfer (emit ?m ?st1) ?f ?dest"
      using cat look date res rel by (simp add: organize_file_def pr del: drop_append)
    have "snd (transfer (emit ?m ?st1) ?f ?dest) = None \<and>
          map_of (fsys (fst (transfer (emit ?m ?st1) ?f ?dest))) ?dest = Some (File t c) \<and>
          out (fst (transfer (emit ?m ?st1) ?f ?dest)) = out (emit ?m ?st1)"
    proof (rule transfer_live_succeeds)
      show "\<not> dry_run (config (emit ?m ?st1))" using False by simp
      show "map_of (fsys (emit ?m ?st1)) ?f = Some (File t c)" using file1 by simp
      show "\<not> path_exists (fsys (emit ?m ?st1)) ?dest" using free1 by simp
      show "is_dir (fsys (emit ?m ?st1)) (parent ?dest)"
        using day by (simp add: parent_def butlast_append)
    qed
    with org cat False show ?thesis by simp
  qed
qed

lemma digit_table: "m < 10 \<Longrightarrow> digit_char m = ''0123456789'' ! m"
proof -
  have "list_all (\<lambda>m. digit_char m = ''0123456789'' ! m) [0..<10]" by code_simp
  then show "m < 10 \<Longrightarrow> digit_char m = ''0123456789'' ! m"
    by (simp add: list_all_iff)
qed

lemma strftime_Ym_2024:
  assumes "m < 10"
  shows "strftime_Ym (2024, m) = ''2024-0'' @ [''0123456789'' ! m]"
proof -
  have y: "str_nat 2024 = ''2024''" by code_simp
  have "str_nat m = [digit_char m]" using assms by (simp add: str_nat.simps[of m])
  with y assms show ?thesis by (simp add: strftime_Ym_def digit_table)
qed

text \<open>
  Claim C9. Under the default rules with date folders enabled, a file
  \<^verbatim>\<open>screenshot_2024.png\<close> in the source directory, last modified in month \<open>m\<close> (below ten)
  of 2024 by the local calendar, is classified as \<^verbatim>\<open>("images", "screenshots")\<close>, and
  \<^verbatim>\<open>organize_file\<close>, run with the folder map of \<^verbatim>\<open>create_organized_structure\<close>, resolves
  its destination to \<^verbatim>\<open>organized/Images/screenshots/2024-0m/screenshot_2024.png\<close> under the
  source: the folder name is the text \<^verbatim>\<open>2024-0\<close> followed by the digit of the month
  of the modification time. No collision at the destination means that this name is
  not taken by a regular file and the file's name is free in it; the output can encode
  the line that is printed. The call returns normally; when the run executes, the file
  is at the destination afterwards; in a dry run the same destination is printed and the
  file system is unchanged.
\<close>

theorem screenshot_example_placement:
  assumes default: "rules (config st0) = default_rules"
    and dates: "create_date_folders (config st0)"
    and built: "create_organized_structure env st0 source = (st, Inr fm)"
    and isfile: "map_of (fsys st) (source @ [''screenshot_2024.png'']) = Some (File t c)"
    and stamp: "fromtimestamp env t = (2024, m)"
    and month: "m < 10"
    and nofile: "\<not> is_file (fsys st)
        (source @ [''organized'', ''Images'', ''screenshots'', ''2024-0'' @ [''0123456789'' ! m]])"
    and free: "\<not> path_exists (fsys st)
        (source @ [''organized'', ''Images'', ''screenshots'', ''2024-0'' @ [''0123456789'' ! m],
                   ''screenshot_2024.png''])"
    and enc_name: "stdout_encodes env ''screenshot_2024.png''"
    and enc_dest: "stdout_encodes env
        (str_rel (drop (length (parent source))
           (source @ [''organized'', ''Images'', ''screenshots'', ''2024-0'' @ [''0123456789'' ! m],
                      ''screenshot_2024.png''])))"
  shows "get_file_category (config st) (source @ [''screenshot_2024.png'']) =
           (''images'', ''screenshots'') \<and>
         snd (organize_file env st (source @ [''screenshot_2024.png'']) fm) = None \<and>
         out (fst (organize_file env st (source @ [''screenshot_2024.png'']) fm)) =
           out st @
           [Action (if backup_enabled (config st) then ''COPY'' else ''MOVE'') ''screenshot_2024.png''
              (drop (length (parent source))
                 (source @ [''organized'', ''Images'', ''screenshots'',
                            ''2024-0'' @ [''0123456789'' ! m], ''screenshot_2024.png'']))] \<and>
         (\<not> dry_run (config st) \<longrightarrow>
            map_of (fsys (fst (organize_file env st (source @ [''screenshot_2024.png'']) fm)))
              (source @ [''organized'', ''Images'', ''screenshots'',
                         ''2024-0'' @ [''0123456789'' ! m], ''screenshot_2024.png''])
              = Some (File t c)) \<and>
         (dry_run (config st) \<longrightarrow>
            fsys (fst (organize_file env st (source @ [''screenshot_2024.png'']) fm)) = fsys st)"
proof -
  have ym: "strftime_Ym (fromtimestamp env t) = ''2024-0'' @ [''0123456789'' ! m]"
    using stamp month by (simp add: strftime_Ym_2024)
  show ?thesis
    using screenshot_placement_at[OF default dates built isfile, unfolded ym,
            OF nofile free enc_name enc_dest]
    by simp
qed

theorem screenshot_example_placement_witness:
  "get_file_category (config example_built) [''data'', ''screenshot_2024.png''] =
     (''images'', ''screenshots'') \<and>
   snd (organize_file example_env example_built [''data'', ''screenshot_2024.png''] example_built_fm)
     = None \<and>
   map_of (fsys (fst (organize_file example_env example_built [''data'', ''screenshot_2024.png'']
                        example_built_fm)))
     [''data'', ''organized'', ''Images'', ''screenshots'', ''2024-03'', ''screenshot_2024.png'']
     = Some (File 5 ''image'')"
proof -
  have "map_prod id isl (create_organized_structure example_env example_live_state [''data''])
          = (example_built, False)"
    by code_simp
  then have built: "create_organized_structure example_env example_live_state [''data'']
                      = (example_built, Inr example_built_fm)"
    by (cases "create_organized_structure example_env example_live_state [''data'']")
       (auto simp: example_built_fm_def isl_def)
  have stamp: "fromtimestamp example_env 5 = (2024, 3)" by (simp add: example_env_def)
  have month: "(3::nat) < 10" by simp
  have day: "''2024-0'' @ [''0123456789'' ! (3::nat)] = ''2024-03''" by code_simp
  have default: "rules (config example_live_state) = default_rules"
    by (simp add: example_live_state_def default_config_def)
  have dates: "create_date_folders (config example_live_state)"
    by (simp add: example_live_state_def default_config_def)
  have live: "\<not> dry_run (config example_built)"
    by (simp add: example_built_def default_config_def)
  have isfile: "map_of (fsys example_built) ([''data''] @ [''screenshot_2024.png''])
                  = Some (File 5 ''image'')"
    by (simp add: example_built_def example_built_fs_def)
  have nofile: "\<not> is_file (fsys example_built)
        ([''data''] @ [''organized'', ''Images'', ''screenshots'', ''2024-0'' @ [''0123456789'' ! (3::nat)]])"
    unfolding day by (simp add: example_built_def example_built_fs_def is_file_def)
  have free: "\<not> path_exists (fsys example_built)
        ([''data''] @ [''organized'', ''Images'', ''screenshots'', ''2024-0'' @ [''0123456789'' ! (3::nat)],
                   ''screenshot_2024.png''])"
    unfolding day by (simp add: example_built_def example_built_fs_def path_exists_def)
  have enc_name: "stdout_encodes example_env ''screenshot_2024.png''" by code_simp
  have enc_dest: "stdout_encodes example_env
        (str_rel (drop (length (parent [''data'']))
           ([''data''] @ [''organized'', ''Images'', ''screenshots'', ''2024-0'' @ [''0123456789'' ! (3::nat)],
                      ''screenshot_2024.png''])))"
    by code_simp
  from screenshot_example_placement[OF default dates built isfile stamp month nofile free
         enc_name enc_dest] live day
  show ?thesis by simp
qed

section \<open>Gathering in recursive mode\<close>

text \<open>
  Claim C4 says that the recursive gathering takes every file under the source that is
  neither inside an ignore-folder nor under the organized root. The source tests
  \<^verbatim>\<open>"organized" not in str(file_path)\<close>, a substring test on the whole path, although its
  comment reads \<^verbatim>\<open># Skip files already in organized folder\<close>. On the example tree the
  file \<^verbatim>\<open>/data/organized_notes.txt\<close> lies directly in the source directory, in no
  ignore-folder and outside \<^verbatim>\<open>/data/organized\<close>; the recursive gathering leaves it out,
  while the non-recursive gathering of the same directory takes it.
\<close>

theorem recursive_gathering_drops_organized_name:
  "is_file example_tree [''data'', ''organized_notes.txt''] \<and>
   files_to_process default_config example_tree [''data''] True =
     Inr [[''data'', ''screenshot_2024.png''],
          [''data'', ''sub'', ''b.txt''],
          [''data'', ''sub'', ''deep'', ''c.txt''],
          [''data'', ''z'', ''d.mp3'']] \<and>
   files_to_process default_config example_tree [''data''] False =
     Inr [[''data'', ''screenshot_2024.png''], [''data'', ''organized_notes.txt'']]"
  by code_simp

end
